theory Spec2Isabelle
  imports Complex_Main "HOL-Library.AList" "HOL-Library.Word" "HOL-Library.Multiset"
begin

section \<open>Values shared by server and client\<close>

text \<open>
  Python floats. A finite double is represented by its rational value: \<^verbatim>\<open>==\<close> and
  \<^verbatim>\<open><\<close> of two finite doubles agree with equality and order of their values, and the
  sign of a difference is the sign of the exact difference; a difference itself stands
  for the double nearest to it. \<^verbatim>\<open>nan\<close> is unequal to everything, itself included,
  and below or above nothing.
\<close>

datatype pyfloat = Finite rat | PosInf | NegInf | NaN

fun float_eq :: "pyfloat \<Rightarrow> pyfloat \<Rightarrow> bool" where
  "float_eq NaN _ = False"
| "float_eq _ NaN = False"
| "float_eq a b = (a = b)"

fun float_lt :: "pyfloat \<Rightarrow> pyfloat \<Rightarrow> bool" where
  "float_lt NaN _ = False"
| "float_lt _ NaN = False"
| "float_lt (Finite a) (Finite b) = (a < b)"
| "float_lt PosInf _ = False"
| "float_lt _ NegInf = False"
| "float_lt NegInf _ = True"
| "float_lt _ PosInf = True"

fun float_sub :: "pyfloat \<Rightarrow> pyfloat \<Rightarrow> pyfloat" where
  "float_sub NaN _ = NaN"
| "float_sub _ NaN = NaN"
| "float_sub (Finite a) (Finite b) = Finite (a - b)"
| "float_sub PosInf PosInf = NaN"
| "float_sub NegInf NegInf = NaN"
| "float_sub PosInf _ = PosInf"
| "float_sub NegInf _ = NegInf"
| "float_sub _ PosInf = NegInf"
| "float_sub _ NegInf = PosInf"

text \<open>
  The result of \<^verbatim>\<open>json.loads\<close>. Objects are association lists with distinct
  keys. \<^verbatim>\<open>json.loads\<close> reads \<^verbatim>\<open>NaN\<close>, \<^verbatim>\<open>Infinity\<close> and \<^verbatim>\<open>-Infinity\<close> as floats.
\<close>

datatype json =
    JNull
  | JBool bool
  | JInt int
  | JFloat pyfloat
  | JStr string
  | JArr "json list"
  | JObj "(string \<times> json) list"

datatype exn =
    ConnectionResetError
  | ConnectionAbortedError
  | BrokenPipeError
  | OSError
  | UnicodeDecodeError
  | AttributeError
  | TypeError
  | ValueError
  | OverflowError

text \<open>The subclasses of \<^verbatim>\<open>OSError\<close> among the exceptions above.\<close>

definition is_OSError :: "exn \<Rightarrow> bool" where
  "is_OSError e = (e = ConnectionResetError \<or> e = ConnectionAbortedError
                   \<or> e = BrokenPipeError \<or> e = OSError)"

text \<open>
  What a socket operation fails with, and the exception Python raises for it
  (\<^verbatim>\<open>EBADF\<close>, a socket already closed on this side, is a plain \<^verbatim>\<open>OSError\<close>).
\<close>

datatype sockerr = ECONNRESET | ECONNABORTED | EPIPE | EBADF

fun os_exn :: "sockerr \<Rightarrow> exn" where
  "os_exn ECONNRESET = ConnectionResetError"
| "os_exn ECONNABORTED = ConnectionAbortedError"
| "os_exn EPIPE = BrokenPipeError"
| "os_exn EBADF = OSError"

text \<open>
  An f-string before rendering: literal fragments and interpolated values, as in
  \<^verbatim>\<open>f"Target client {target_id} not found."\<close>.
\<close>

datatype frag = Lit string | Val json

text \<open>The dictionaries the server serialises with \<^verbatim>\<open>send_json\<close>, one constructor per shape.\<close>

datatype packet =
    Welcome (client_id: string) (snapshot: "(string \<times> string) list")
  | ChatPkt (message_id: int) (sender: string) (target: json) (body: json)
            (stamp: pyfloat) (reply_to: json)
  | ReceiptPkt (message_id: int) (target: json) (status: string) (stamp: pyfloat)
  | ClientListPkt (snapshot: "(string \<times> string) list")
  | InfoPkt (info_text: string) (stamp: pyfloat)
  | ErrorPkt (error_text: "frag list") (stamp: pyfloat)

section \<open>Client: the local history (client.py)\<close>

text \<open>
  One entry of \<^verbatim>\<open>self.history\<close>: the dictionary with the keys \<^verbatim>\<open>id\<close>,
  \<^verbatim>\<open>direction\<close>, \<^verbatim>\<open>peer\<close>, \<^verbatim>\<open>text\<close>, \<^verbatim>\<open>timestamp\<close>, \<^verbatim>\<open>reply_to\<close>,
  \<^verbatim>\<open>temp_until\<close>, \<^verbatim>\<open>deleted\<close>. \<^verbatim>\<open>None\<close> is \<open>None\<close> or \<open>JNull\<close>.
\<close>

record entry =
  m_id :: "int option"
  m_direction :: string
  m_peer :: json
  m_text :: json
  m_timestamp :: "pyfloat option"
  m_reply_to :: json
  m_temp_until :: "pyfloat option"
  m_deleted :: bool

text \<open>What the client writes to its socket with \<^verbatim>\<open>_send_json\<close>.\<close>

datatype request =
    ChatReq (req_to: json) (req_text: string) (req_reply_to: "int option")
  | ListReq
  | ExitReq

text \<open>
  The client object: the history, the packets written to the socket so far, the lines
  printed for the user, the cleanup threads started and not yet run (each with its
  arguments \<^verbatim>\<open>(temp_until, text)\<close>), the reading of \<^verbatim>\<open>time.time()\<close>, and what
  \<^verbatim>\<open>sock.sendall\<close> raises (\<open>None\<close>: the write succeeds).
\<close>

record client =
  history :: "entry list"
  outbox :: "request list"
  console :: "string list"
  timers :: "(pyfloat \<times> string) list"
  clock :: pyfloat
  link_fault :: "sockerr option"

subsection \<open>Decimal rendering of integers\<close>

definition digit_char :: "nat \<Rightarrow> char" where
  "digit_char d = ''0123456789'' ! d"

function dec_nat :: "nat \<Rightarrow> string" where
  "dec_nat n = (if n < 10 then [digit_char n]
                else dec_nat (n div 10) @ [digit_char (n mod 10)])"
  by pat_completeness auto
termination
  by (relation "measure id") auto

declare dec_nat.simps [simp del]

text \<open>\<^verbatim>\<open>str(n)\<close> for a Python int.\<close>

definition str_int :: "int \<Rightarrow> string" where
  "str_int n = (if n < 0 then CHR ''-'' # dec_nat (nat (- n)) else dec_nat (nat n))"

subsection \<open>Sending\<close>

definition client_send_json :: "client \<Rightarrow> request \<Rightarrow> exn option \<times> client" where
  "client_send_json c obj =
     (case link_fault c of
        Some e \<Rightarrow> (Some (os_exn e), c)
      | None \<Rightarrow> (None, c\<lparr>outbox := outbox c @ [obj]\<rparr>))"

definition opt_int_json :: "int option \<Rightarrow> json" where
  "opt_int_json r = (case r of None \<Rightarrow> JNull | Some n \<Rightarrow> JInt n)"

text \<open>\<^verbatim>\<open>send_chat\<close>: the packet is written first; the entry is appended only if the write returned.\<close>

definition send_chat ::
  "client \<Rightarrow> json \<Rightarrow> string \<Rightarrow> int option \<Rightarrow> pyfloat option \<Rightarrow> exn option \<times> client" where
  "send_chat c target_id txt reply temp_until =
     (case client_send_json c (ChatReq target_id txt reply) of
        (Some e, c') \<Rightarrow> (Some e, c')
      | (None, c') \<Rightarrow>
          (None, c'\<lparr>history := history c' @
             [\<lparr>m_id = None, m_direction = ''out'', m_peer = target_id,
               m_text = JStr txt, m_timestamp = Some (clock c'),
               m_reply_to = opt_int_json reply, m_temp_until = temp_until,
               m_deleted = False\<rparr>]\<rparr>))"

text \<open>
  \<^verbatim>\<open>send_reply\<close>: \<^verbatim>\<open>next((m for m in self.history if m["id"] == msg_id), None)\<close>
  is the first entry with that id; the \<^verbatim>\<open>deleted\<close> flag is not consulted.
\<close>

definition send_reply :: "client \<Rightarrow> int \<Rightarrow> string \<Rightarrow> exn option \<times> client" where
  "send_reply c msg_id txt =
     (case find (\<lambda>m. m_id m = Some msg_id) (history c) of
        None \<Rightarrow>
          (None, c\<lparr>console := console c @
             [''[CLIENT] No message with ID '' @ str_int msg_id @ '' in history.'']\<rparr>)
      | Some target_msg \<Rightarrow> send_chat c (m_peer target_msg) txt (Some msg_id) None)"

subsection \<open>Temporary messages\<close>

text \<open>
  The condition of the loop in \<^verbatim>\<open>_temp_cleanup_worker\<close>: the entry is matched by
  its text and its deadline. \<^verbatim>\<open>None == temp_until\<close> is false.
\<close>

definition temp_matches :: "pyfloat \<Rightarrow> string \<Rightarrow> entry \<Rightarrow> bool" where
  "temp_matches temp_until txt m =
     (m_text m = JStr txt
      \<and> (case m_temp_until m of None \<Rightarrow> False | Some t \<Rightarrow> float_eq t temp_until)
      \<and> \<not> m_deleted m)"

fun mark_first :: "pyfloat \<Rightarrow> string \<Rightarrow> entry list \<Rightarrow> entry list" where
  "mark_first temp_until txt [] = []"
| "mark_first temp_until txt (m # ms) =
     (if temp_matches temp_until txt m then m\<lparr>m_deleted := True\<rparr> # ms
      else m # mark_first temp_until txt ms)"

text \<open>
  \<^verbatim>\<open>time.sleep(secs)\<close>: what it raises, if anything. A negative or \<^verbatim>\<open>nan\<close> argument is a
  \<^verbatim>\<open>ValueError\<close>; an infinite argument, or one above the longest sleep the platform can
  represent (\<open>sleep_max\<close>, about \<open>9.2e9\<close> seconds where the time type has 64 bits of
  nanoseconds), is an \<^verbatim>\<open>OverflowError\<close>.
\<close>

fun sleep_exn :: "rat \<Rightarrow> pyfloat \<Rightarrow> exn option" where
  "sleep_exn sleep_max NaN = Some ValueError"
| "sleep_exn sleep_max NegInf = Some ValueError"
| "sleep_exn sleep_max PosInf = Some OverflowError"
| "sleep_exn sleep_max (Finite r) =
     (if r < 0 then Some ValueError
      else if sleep_max < r then Some OverflowError
      else None)"

text \<open>
  The head of \<^verbatim>\<open>_temp_cleanup_worker\<close> (client.py 206-208), run when the clock reads
  \<open>now\<close>: \<^verbatim>\<open>remaining = temp_until - time.time()\<close>, and the sleep when that is positive.
  The result is the exception that ends the thread there, if any.
\<close>

definition cleanup_sleep :: "rat \<Rightarrow> pyfloat \<Rightarrow> pyfloat \<Rightarrow> exn option" where
  "cleanup_sleep sleep_max now temp_until =
     (let remaining = float_sub temp_until now
      in if float_lt (Finite 0) remaining then sleep_exn sleep_max remaining else None)"

text \<open>
  The clock when that sleep is over: the deadline, when there was time left to sleep,
  and the clock as it was otherwise. (A sleep may last longer than asked, never less.)
\<close>

definition wake_time :: "pyfloat \<Rightarrow> pyfloat \<Rightarrow> pyfloat" where
  "wake_time now temp_until = (if float_lt now temp_until then temp_until else now)"

text \<open>
  The rest of \<^verbatim>\<open>_temp_cleanup_worker\<close> (client.py 209-218): the loop under the lock,
  which marks the first entry that matches and stops, and the line printed after it in
  every case.
\<close>

definition cleanup_mark :: "client \<Rightarrow> pyfloat \<Rightarrow> string \<Rightarrow> client" where
  "cleanup_mark c temp_until txt =
     c\<lparr>history := mark_first temp_until txt (history c),
       console := console c @
         [''[CLIENT] (Temp) A message has expired and was removed from local history.'']\<rparr>"

text \<open>
  \<^verbatim>\<open>_temp_cleanup_worker\<close> as a whole, started when the clock reads \<open>clock c\<close> and
  with nothing else happening in between: the sleep, which may raise, and then the
  marking, with the clock where the sleep has left it.
\<close>

definition temp_cleanup_worker ::
  "rat \<Rightarrow> client \<Rightarrow> pyfloat \<Rightarrow> string \<Rightarrow> exn option \<times> client" where
  "temp_cleanup_worker sleep_max c temp_until txt =
     (case cleanup_sleep sleep_max (clock c) temp_until of
        Some e \<Rightarrow> (Some e, c)
      | None \<Rightarrow>
          (None, cleanup_mark (c\<lparr>clock := wake_time (clock c) temp_until\<rparr>) temp_until txt))"

text \<open>
  \<^verbatim>\<open>send_temp_message\<close>. The float \<^verbatim>\<open>temp_until = time.time() + seconds\<close> is taken
  as computed; the thread is started only if \<^verbatim>\<open>send_chat\<close> returned. The new thread
  runs the head of \<^verbatim>\<open>_temp_cleanup_worker\<close> at once: it is listed among the sleeping
  threads unless its sleep raises, which ends it without a trace in the client.
\<close>

definition send_temp_message ::
  "rat \<Rightarrow> client \<Rightarrow> string \<Rightarrow> string \<Rightarrow> pyfloat \<Rightarrow> exn option \<times> client" where
  "send_temp_message sleep_max c target_id txt temp_until =
     (case send_chat c (JStr target_id) txt None (Some temp_until) of
        (Some e, c') \<Rightarrow> (Some e, c')
      | (None, c') \<Rightarrow>
          (None,
           case cleanup_sleep sleep_max (clock c') temp_until of
             Some e \<Rightarrow> c'
           | None \<Rightarrow> c'\<lparr>timers := timers c' @ [(temp_until, txt)]\<rparr>))"

text \<open>
  The \<open>i\<close>-th sleeping cleanup thread wakes and runs the rest of its body: this cannot
  happen while the clock is before its deadline; the thread runs once and is gone.
\<close>

definition fire_timer :: "client \<Rightarrow> nat \<Rightarrow> client" where
  "fire_timer c i =
     (if i < length (timers c) \<and> \<not> float_lt (clock c) (fst (timers c ! i))
      then cleanup_mark (c\<lparr>timers := take i (timers c) @ drop (Suc i) (timers c)\<rparr>)
             (fst (timers c ! i)) (snd (timers c ! i))
      else c)"

subsection \<open>Receipts\<close>

text \<open>\<^verbatim>\<open>if ts\<close>: the truth value of a JSON value in Python.\<close>

fun truthy :: "json \<Rightarrow> bool" where
  "truthy JNull = False"
| "truthy (JBool b) = b"
| "truthy (JInt n) = (n \<noteq> 0)"
| "truthy (JFloat f) = (f \<noteq> Finite 0)"
| "truthy (JStr s) = (s \<noteq> [])"
| "truthy (JArr xs) = (xs \<noteq> [])"
| "truthy (JObj kvs) = (kvs \<noteq> [])"

text \<open>
  \<^verbatim>\<open>datetime.fromtimestamp(ts).strftime(...) if ts else "?"\<close> (client.py 255 and 279):
  the exception it raises, if any. \<open>fromts\<close> is what \<^verbatim>\<open>datetime.fromtimestamp\<close> raises
  for a finite number (the years the platform and the time zone can represent), \<open>None\<close>
  when it converts. \<^verbatim>\<open>nan\<close> is a \<^verbatim>\<open>ValueError\<close>, an infinity an \<^verbatim>\<open>OverflowError\<close>, a
  string, list or dictionary a \<^verbatim>\<open>TypeError\<close>; \<^verbatim>\<open>True\<close> is the number 1.
\<close>

fun fromtimestamp :: "(rat \<Rightarrow> exn option) \<Rightarrow> json \<Rightarrow> exn option" where
  "fromtimestamp fromts (JFloat NaN) = Some ValueError"
| "fromtimestamp fromts (JFloat PosInf) = Some OverflowError"
| "fromtimestamp fromts (JFloat NegInf) = Some OverflowError"
| "fromtimestamp fromts (JFloat (Finite r)) = fromts r"
| "fromtimestamp fromts (JInt n) = fromts (of_int n)"
| "fromtimestamp fromts (JBool b) = fromts (if b then 1 else 0)"
| "fromtimestamp fromts _ = Some TypeError"

definition stamp_display :: "(rat \<Rightarrow> exn option) \<Rightarrow> json \<Rightarrow> exn option" where
  "stamp_display fromts ts = (if truthy ts then fromtimestamp fromts ts else None)"

text \<open>
  \<^verbatim>\<open>==\<close> of two JSON values in Python: numbers are compared by value, \<^verbatim>\<open>True\<close>
  and \<^verbatim>\<open>False\<close> being 1 and 0 and \<^verbatim>\<open>nan\<close> equal to nothing; lists are compared
  element by element, dictionaries key by key; values of different kinds are unequal.
\<close>

fun num_val :: "json \<Rightarrow> pyfloat option" where
  "num_val (JBool b) = Some (Finite (if b then 1 else 0))"
| "num_val (JInt n) = Some (Finite (of_int n))"
| "num_val (JFloat f) = Some f"
| "num_val _ = None"

fun py_eq :: "json \<Rightarrow> json \<Rightarrow> bool" where
  "py_eq JNull b = (b = JNull)"
| "py_eq (JStr s) b = (b = JStr s)"
| "py_eq (JArr xs) b = (case b of JArr ys \<Rightarrow> list_all2 py_eq xs ys | _ \<Rightarrow> False)"
| "py_eq (JObj kvs) b =
     (case b of
        JObj kws \<Rightarrow>
          length kvs = length kws
          \<and> (\<forall>(k, v) \<in> set kvs. case map_of kws k of None \<Rightarrow> False | Some w \<Rightarrow> py_eq v w)
      | _ \<Rightarrow> False)"
| "py_eq a b =
     (case (num_val a, num_val b) of
        (Some x, Some y) \<Rightarrow> float_eq x y
      | _ \<Rightarrow> False)"

text \<open>The condition of the loop in \<^verbatim>\<open>handle_receipt\<close>.\<close>

definition receipt_pending :: "json \<Rightarrow> entry \<Rightarrow> bool" where
  "receipt_pending tgt m =
     (m_direction m = ''out'' \<and> m_id m = None \<and> py_eq (m_peer m) tgt \<and> \<not> m_deleted m)"

text \<open>The loop itself: the first entry that satisfies the condition is updated, then \<^verbatim>\<open>break\<close>.\<close>

fun fill_first :: "json \<Rightarrow> int option \<Rightarrow> entry list \<Rightarrow> entry list" where
  "fill_first tgt mid [] = []"
| "fill_first tgt mid (m # ms) =
     (if receipt_pending tgt m then m\<lparr>m_id := mid\<rparr> # ms
      else m # fill_first tgt mid ms)"

text \<open>
  \<^verbatim>\<open>handle_receipt\<close> on a receipt packet: \<^verbatim>\<open>mid = msg.get("message_id")\<close>,
  \<^verbatim>\<open>target = msg.get("to")\<close>, \<^verbatim>\<open>ts = msg.get("timestamp")\<close>. The time of day is
  formatted before the history is looked at; an exception there leaves the function.
\<close>

definition handle_receipt ::
  "(rat \<Rightarrow> exn option) \<Rightarrow> client \<Rightarrow> int option \<Rightarrow> json \<Rightarrow> json \<Rightarrow> exn option \<times> client" where
  "handle_receipt fromts c mid tgt ts =
     (case stamp_display fromts ts of
        Some e \<Rightarrow> (Some e, c)
      | None \<Rightarrow> (None, c\<lparr>history := fill_first tgt mid (history c)\<rparr>))"

subsection \<open>Incoming packets\<close>

text \<open>
  \<^verbatim>\<open>handle_chat_message\<close> on a chat packet: the time of day is formatted, then an
  inbound entry is appended.
\<close>

definition handle_chat_message ::
  "(rat \<Rightarrow> exn option) \<Rightarrow> client \<Rightarrow> int \<Rightarrow> string \<Rightarrow> json \<Rightarrow> pyfloat \<Rightarrow> json
     \<Rightarrow> exn option \<times> client" where
  "handle_chat_message fromts c mid sndr txt ts reply =
     (case stamp_display fromts (JFloat ts) of
        Some e \<Rightarrow> (Some e, c)
      | None \<Rightarrow>
          (None, c\<lparr>history := history c @
             [\<lparr>m_id = Some mid, m_direction = ''in'', m_peer = JStr sndr, m_text = txt,
               m_timestamp = Some ts, m_reply_to = reply, m_temp_until = None,
               m_deleted = False\<rparr>]\<rparr>))"

text \<open>
  \<^verbatim>\<open>handle_server_message\<close> on the result of parsing one line (\<open>None\<close>: the line is
  not JSON). The packets have the shapes the server of this repository writes, with any
  float as the stamp; the branches that only print are left without effect.
\<close>

fun handle_server_message ::
  "(rat \<Rightarrow> exn option) \<Rightarrow> client \<Rightarrow> packet option \<Rightarrow> exn option \<times> client" where
  "handle_server_message fromts c None = (None, c)"
| "handle_server_message fromts c (Some (ChatPkt mid sndr tgt txt ts reply)) =
     handle_chat_message fromts c mid sndr txt ts reply"
| "handle_server_message fromts c (Some (ReceiptPkt mid tgt st ts)) =
     handle_receipt fromts c (Some mid) tgt (JFloat ts)"
| "handle_server_message fromts c (Some _) = (None, c)"

section \<open>Framing: the read loop of both endpoints\<close>

text \<open>
  A Python \<^verbatim>\<open>str\<close> is a sequence of code points; \<^verbatim>\<open>bytes\<close> is a sequence of
  octets.
\<close>

type_synonym pystr = "nat list"
type_synonym byte = "8 word"

definition DELIMITER :: nat where
  "DELIMITER = 10"

text \<open>\<^verbatim>\<open>str.isspace\<close> on one code point.\<close>

definition is_space :: "nat \<Rightarrow> bool" where
  "is_space c = ((9 \<le> c \<and> c \<le> 13) \<or> (28 \<le> c \<and> c \<le> 32) \<or> c = 133 \<or> c = 160
     \<or> c = 5760 \<or> (8192 \<le> c \<and> c \<le> 8202) \<or> c = 8232 \<or> c = 8233 \<or> c = 8239
     \<or> c = 8287 \<or> c = 12288)"

definition strip :: "pystr \<Rightarrow> pystr" where
  "strip s = rev (dropWhile is_space (rev (dropWhile is_space s)))"

definition is_cont :: "byte \<Rightarrow> bool" where
  "is_cont b = (0x80 \<le> unat b \<and> unat b \<le> 0xBF)"

text \<open>
  \<^verbatim>\<open>data.decode("utf-8")\<close>, strict: \<open>None\<close> is \<^verbatim>\<open>UnicodeDecodeError\<close>. Overlong
  forms, surrogates, code points above U+10FFFF and truncated sequences are errors.
\<close>

fun utf8_decode :: "byte list \<Rightarrow> pystr option" where
  "utf8_decode [] = Some []"
| "utf8_decode (b0 # bs) =
     (let a = unat b0 in
      if a < 0x80 then map_option ((#) a) (utf8_decode bs)
      else if 0xC2 \<le> a \<and> a \<le> 0xDF then
        (case bs of
           b1 # r \<Rightarrow>
             if is_cont b1
             then map_option ((#) ((a - 0xC0) * 64 + (unat b1 - 0x80))) (utf8_decode r)
             else None
         | _ \<Rightarrow> None)
      else if 0xE0 \<le> a \<and> a \<le> 0xEF then
        (case bs of
           b1 # b2 # r \<Rightarrow>
             if is_cont b1 \<and> is_cont b2
                \<and> (a = 0xE0 \<longrightarrow> 0xA0 \<le> unat b1) \<and> (a = 0xED \<longrightarrow> unat b1 \<le> 0x9F)
             then map_option
                    ((#) ((a - 0xE0) * 4096 + (unat b1 - 0x80) * 64 + (unat b2 - 0x80)))
                    (utf8_decode r)
             else None
         | _ \<Rightarrow> None)
      else if 0xF0 \<le> a \<and> a \<le> 0xF4 then
        (case bs of
           b1 # b2 # b3 # r \<Rightarrow>
             if is_cont b1 \<and> is_cont b2 \<and> is_cont b3
                \<and> (a = 0xF0 \<longrightarrow> 0x90 \<le> unat b1) \<and> (a = 0xF4 \<longrightarrow> unat b1 \<le> 0x8F)
             then map_option
                    ((#) ((a - 0xF0) * 262144 + (unat b1 - 0x80) * 4096
                          + (unat b2 - 0x80) * 64 + (unat b3 - 0x80)))
                    (utf8_decode r)
             else None
         | _ \<Rightarrow> None)
      else None)"

lemma length_after_delimiter:
  "d \<in> set buf \<Longrightarrow> length (tl (dropWhile (\<lambda>c. c \<noteq> d) buf)) < length buf"
proof -
  assume "d \<in> set buf"
  then have "dropWhile (\<lambda>c. c \<noteq> d) buf \<noteq> []" by auto
  then have "length (tl (dropWhile (\<lambda>c. c \<noteq> d) buf)) < length (dropWhile (\<lambda>c. c \<noteq> d) buf)"
    by (cases "dropWhile (\<lambda>c. c \<noteq> d) buf") auto
  also have "\<dots> \<le> length buf" by (rule length_dropWhile_le)
  finally show ?thesis .
qed

text \<open>
  The inner loop of \<^verbatim>\<open>handle_new_client\<close> and of \<^verbatim>\<open>listen_loop\<close>:
  \<^verbatim>\<open>while DELIMITER in buffer: line, buffer = buffer.split(DELIMITER, 1)\<close>, the
  handler called on every line that is not blank. The handler \<open>h\<close> returns the
  exception it raised, if any, and the state it left; an exception leaves the loop.
  The result is the exception, the state and the buffer.
\<close>

function drain ::
  "('s \<Rightarrow> pystr \<Rightarrow> exn option \<times> 's) \<Rightarrow> 's \<Rightarrow> pystr \<Rightarrow> exn option \<times> 's \<times> pystr" where
  "drain h st buf =
     (if DELIMITER \<in> set buf then
        (let line = takeWhile (\<lambda>c. c \<noteq> DELIMITER) buf;
             rest = tl (dropWhile (\<lambda>c. c \<noteq> DELIMITER) buf)
         in if strip line \<noteq> [] then
              (case h st line of
                 (Some e, st') \<Rightarrow> (Some e, st', rest)
               | (None, st') \<Rightarrow> drain h st' rest)
            else drain h st rest)
      else (None, st, buf))"
  by pat_completeness auto
termination
  by (relation "measure (\<lambda>(h, st, buf). length buf)")
     (auto simp del: length_tl simp: length_after_delimiter)

declare drain.simps [simp del]

text \<open>
  The outer loop over the reads, for a list of chunks returned by \<^verbatim>\<open>recv\<close>: an empty
  chunk ends the loop (\<^verbatim>\<open>if not data: break\<close>), a chunk that is not UTF-8 raises.
  The result says whether the loop is still reading (\<open>True\<close>) or has been left.
\<close>

fun read_loop ::
  "('s \<Rightarrow> pystr \<Rightarrow> exn option \<times> 's) \<Rightarrow> 's \<Rightarrow> pystr \<Rightarrow> byte list list
     \<Rightarrow> exn option \<times> 's \<times> pystr \<times> bool" where
  "read_loop h st buf [] = (None, st, buf, True)"
| "read_loop h st buf (data # chunks) =
     (if data = [] then (None, st, buf, False)
      else case utf8_decode data of
             None \<Rightarrow> (Some UnicodeDecodeError, st, buf, False)
           | Some s \<Rightarrow>
               (case drain h st (buf @ s) of
                  (Some e, st', buf') \<Rightarrow> (Some e, st', buf', False)
                | (None, st', buf') \<Rightarrow> read_loop h st' buf' chunks))"

text \<open>The handler that records the lines it is given: the sequence of decoded packets.\<close>

definition record_line :: "pystr list \<Rightarrow> pystr \<Rightarrow> exn option \<times> pystr list" where
  "record_line seen line = (None, seen @ [line])"

section \<open>Server (server.py)\<close>

type_synonym sock = nat

text \<open>The address \<^verbatim>\<open>accept\<close> returns, and \<^verbatim>\<open>str(addr)\<close> of the tuple.\<close>

record addr =
  host :: string
  port :: nat

definition str_address :: "addr \<Rightarrow> string" where
  "str_address a = ''('' @ [CHR 0x27] @ host a @ [CHR 0x27] @ '', '' @ dec_nat (port a) @ '')''"

record client_info =
  socket :: sock
  address :: addr
  name :: string

text \<open>
  The server object and what surrounds it. \<open>clients\<close> is the dictionary in insertion
  order. \<open>wire\<close> lists the packets written so far with the socket each went to;
  \<open>closed_socks\<close> are the sockets the server has closed; \<open>faults\<close> says what
  \<^verbatim>\<open>sendall\<close> fails with on a socket whose peer is gone; \<open>time_now\<close> is the reading of
  \<^verbatim>\<open>time.time()\<close>, one value for all the readings of one call. The listening socket,
  \<open>host\<close>, \<open>port\<close> and \<open>running\<close> play no part in what follows and are left out.
\<close>

record server =
  clients :: "(string \<times> client_info) list"
  next_client_id :: int
  message_counter :: int
  wire :: "(sock \<times> packet) list"
  closed_socks :: "sock list"
  faults :: "(sock \<times> sockerr) list"
  time_now :: pyfloat

text \<open>\<^verbatim>\<open>ChatServer.__init__\<close>, with nothing written and no socket broken.\<close>

definition init_server :: "pyfloat \<Rightarrow> server" where
  "init_server t = \<lparr>clients = [], next_client_id = 1, message_counter = 1, wire = [],
     closed_socks = [], faults = [], time_now = t\<rparr>"

text \<open>\<^verbatim>\<open>f"{n:03d}"\<close>: decimal, zero-padded to width 3, the sign counted in the width.\<close>

definition fmt_03d :: "int \<Rightarrow> string" where
  "fmt_03d n =
     (let ds = dec_nat (nat \<bar>n\<bar>)
      in if n < 0 then CHR ''-'' # replicate (2 - length ds) (CHR ''0'') @ ds
         else replicate (3 - length ds) (CHR ''0'') @ ds)"

text \<open>The locked block at the head of \<^verbatim>\<open>handle_new_client\<close>.\<close>

definition register :: "server \<Rightarrow> sock \<Rightarrow> addr \<Rightarrow> string \<times> server" where
  "register st conn a =
     (let cid = CHR ''C'' # fmt_03d (next_client_id st)
      in (cid, st\<lparr>next_client_id := next_client_id st + 1,
                   clients := AList.update cid
                     \<lparr>socket = conn, address = a, name = cid\<rparr> (clients st)\<rparr>))"

definition client_list_snapshot :: "server \<Rightarrow> (string \<times> string) list" where
  "client_list_snapshot st = map (\<lambda>(cid, info). (cid, str_address (address info))) (clients st)"

text \<open>\<^verbatim>\<open>send_json\<close>: the packet reaches the wire, or \<^verbatim>\<open>sendall\<close> raises.\<close>

definition send_json :: "server \<Rightarrow> sock \<Rightarrow> packet \<Rightarrow> exn option \<times> server" where
  "send_json st s obj =
     (if s \<in> set (closed_socks st) then (Some OSError, st)
      else case map_of (faults st) s of
             Some e \<Rightarrow> (Some (os_exn e), st)
           | None \<Rightarrow> (None, st\<lparr>wire := wire st @ [(s, obj)]\<rparr>))"

text \<open>The condition under which \<^verbatim>\<open>sendall\<close> on a socket returns.\<close>

definition writable :: "server \<Rightarrow> sock \<Rightarrow> bool" where
  "writable st s = (s \<notin> set (closed_socks st) \<and> map_of (faults st) s = None)"

text \<open>\<^verbatim>\<open>try: ... except OSError: pass\<close>.\<close>

definition except_OSError :: "exn option \<times> server \<Rightarrow> exn option \<times> server" where
  "except_OSError r =
     (case r of
        (Some e, st) \<Rightarrow> if is_OSError e then (None, st) else (Some e, st)
      | (None, st) \<Rightarrow> (None, st))"

definition send_to_client_id :: "server \<Rightarrow> string \<Rightarrow> packet \<Rightarrow> exn option \<times> server" where
  "send_to_client_id st cid pkt =
     (case map_of (clients st) cid of
        None \<Rightarrow> (None, st)
      | Some info \<Rightarrow> except_OSError (send_json st (socket info) pkt))"

definition send_info :: "server \<Rightarrow> string \<Rightarrow> string \<Rightarrow> exn option \<times> server" where
  "send_info st cid txt = send_to_client_id st cid (InfoPkt txt (time_now st))"

definition send_error :: "server \<Rightarrow> string \<Rightarrow> frag list \<Rightarrow> exn option \<times> server" where
  "send_error st cid txt = send_to_client_id st cid (ErrorPkt txt (time_now st))"

definition send_client_list :: "server \<Rightarrow> string \<Rightarrow> exn option \<times> server" where
  "send_client_list st cid = send_to_client_id st cid (ClientListPkt (client_list_snapshot st))"

text \<open>The loop of \<^verbatim>\<open>broadcast_info\<close> over \<^verbatim>\<open>self.clients.items()\<close>.\<close>

fun broadcast_loop ::
  "server \<Rightarrow> packet \<Rightarrow> string \<Rightarrow> (string \<times> client_info) list \<Rightarrow> exn option \<times> server" where
  "broadcast_loop st pkt exclude_id [] = (None, st)"
| "broadcast_loop st pkt exclude_id ((cid, info) # others) =
     (if cid = exclude_id then broadcast_loop st pkt exclude_id others
      else case except_OSError (send_json st (socket info) pkt) of
             (Some e, st') \<Rightarrow> (Some e, st')
           | (None, st') \<Rightarrow> broadcast_loop st' pkt exclude_id others)"

definition broadcast_info :: "server \<Rightarrow> string \<Rightarrow> string \<Rightarrow> exn option \<times> server" where
  "broadcast_info st txt exclude_id =
     broadcast_loop st (InfoPkt txt (time_now st)) exclude_id (clients st)"

text \<open>The packets a broadcast writes: one to every other client whose socket takes it.\<close>

definition notices ::
  "server \<Rightarrow> packet \<Rightarrow> string \<Rightarrow> (string \<times> client_info) list \<Rightarrow> (sock \<times> packet) list" where
  "notices st pkt exclude_id cl =
     map (\<lambda>(cid, info). (socket info, pkt))
       (filter (\<lambda>(cid, info). cid \<noteq> exclude_id \<and> writable st (socket info)) cl)"

text \<open>
  \<^verbatim>\<open>remove_client\<close>: \<^verbatim>\<open>pop\<close>, and for a record that was there, \<^verbatim>\<open>close\<close> and the
  leave notice.
\<close>

definition remove_client :: "server \<Rightarrow> string \<Rightarrow> exn option \<times> server" where
  "remove_client st cid =
     (case map_of (clients st) cid of
        None \<Rightarrow> (None, st)
      | Some info \<Rightarrow>
          broadcast_info
            (st\<lparr>clients := AList.delete cid (clients st),
                closed_socks := List.insert (socket info) (closed_socks st)\<rparr>)
            (cid @ '' left the chat.'') cid)"

text \<open>\<^verbatim>\<open>d.get(k, default)\<close> on a dictionary.\<close>

definition dict_get :: "(string \<times> json) list \<Rightarrow> string \<Rightarrow> json \<Rightarrow> json" where
  "dict_get d k dflt = (case map_of d k of None \<Rightarrow> dflt | Some v \<Rightarrow> v)"

text \<open>
  \<^verbatim>\<open>self.clients.get(target_id)\<close>: a list or a dictionary is unhashable; the keys of
  the registry are strings, so no other value finds a record.
\<close>

fun clients_get :: "server \<Rightarrow> json \<Rightarrow> exn + client_info option" where
  "clients_get st (JStr s) = Inr (map_of (clients st) s)"
| "clients_get st (JArr _) = Inl TypeError"
| "clients_get st (JObj _) = Inl TypeError"
| "clients_get st _ = Inr None"

definition route_chat_message ::
  "server \<Rightarrow> string \<Rightarrow> (string \<times> json) list \<Rightarrow> exn option \<times> server" where
  "route_chat_message st sender_id msg =
     (let target_id = dict_get msg ''to'' JNull;
          txt = dict_get msg ''text'' (JStr []);
          reply = dict_get msg ''reply_to'' JNull;
          timestamp = time_now st
      in case clients_get st target_id of
           Inl e \<Rightarrow> (Some e, st)
         | Inr target_info \<Rightarrow>
             (let sender_info = map_of (clients st) sender_id
              in case target_info of
                   None \<Rightarrow>
                     send_error st sender_id
                       [Lit ''Target client '', Val target_id, Lit '' not found.'']
                 | Some ti \<Rightarrow>
                     (let message_id = message_counter st;
                          st1 = st\<lparr>message_counter := message_counter st + 1\<rparr>
                      in case send_json st1 (socket ti)
                                (ChatPkt message_id sender_id target_id txt timestamp reply) of
                           (Some e, st2) \<Rightarrow> (Some e, st2)
                         | (None, st2) \<Rightarrow>
                             (case sender_info of
                                None \<Rightarrow> (None, st2)
                              | Some si \<Rightarrow>
                                  send_json st2 (socket si)
                                    (ReceiptPkt message_id target_id ''delivered''
                                       (time_now st2))))))"

text \<open>
  \<^verbatim>\<open>handle_client_message\<close> on the result of \<^verbatim>\<open>json.loads\<close> (\<open>None\<close>:
  \<^verbatim>\<open>JSONDecodeError\<close>). A value that is not a dictionary has no \<^verbatim>\<open>get\<close>.
\<close>

definition handle_client_message :: "server \<Rightarrow> string \<Rightarrow> json option \<Rightarrow> exn option \<times> server" where
  "handle_client_message st cid parsed =
     (case parsed of
        None \<Rightarrow> (None, st)
      | Some (JObj msg) \<Rightarrow>
          (let msg_type = dict_get msg ''type'' JNull
           in if msg_type = JStr ''chat'' then route_chat_message st cid msg
              else if msg_type = JStr ''list'' then send_client_list st cid
              else if msg_type = JStr ''exit'' then
                (case send_info st cid ''Goodbye!'' of
                   (Some e, st') \<Rightarrow> (Some e, st')
                 | (None, st') \<Rightarrow> remove_client st' cid)
              else send_error st cid [Lit ''Unknown message type: '', Val msg_type])
      | Some _ \<Rightarrow> (Some AttributeError, st))"

subsection \<open>The thread of one connection\<close>

text \<open>
  A thread is reading with its buffer, or it has ended, with the exception that left it
  uncaught if there is one.
\<close>

datatype wstate = Running pystr | Finished "exn option"

datatype recv_event = Data "byte list" | RecvRaises sockerr

text \<open>
  Leaving the \<^verbatim>\<open>try\<close> of \<^verbatim>\<open>handle_new_client\<close>: the \<^verbatim>\<open>except\<close> clause catches the
  two connection errors only, and \<^verbatim>\<open>finally\<close> removes the client in every case.
\<close>

definition end_thread :: "server \<Rightarrow> string \<Rightarrow> exn option \<Rightarrow> wstate \<times> server" where
  "end_thread st cid raised =
     (case remove_client st cid of
        (Some e, st') \<Rightarrow> (Finished (Some e), st')
      | (None, st') \<Rightarrow>
          (Finished
             (case raised of
                None \<Rightarrow> None
              | Some e \<Rightarrow>
                  if e = ConnectionResetError \<or> e = ConnectionAbortedError then None
                  else Some e),
           st'))"

text \<open>\<^verbatim>\<open>handle_new_client\<close> up to the first read: registration, welcome, join notice.\<close>

definition handle_new_client :: "server \<Rightarrow> sock \<Rightarrow> addr \<Rightarrow> string \<times> wstate \<times> server" where
  "handle_new_client st conn a =
     (let (cid, st1) = register st conn a
      in case send_json st1 conn (Welcome cid (client_list_snapshot st1)) of
           (Some e, st2) \<Rightarrow> (cid, end_thread st2 cid (Some e))
         | (None, st2) \<Rightarrow>
             (case broadcast_info st2 (cid @ '' joined the chat.'') cid of
                (Some e, st3) \<Rightarrow> (cid, end_thread st3 cid (Some e))
              | (None, st3) \<Rightarrow> (cid, Running [], st3)))"

text \<open>
  One turn of the outer loop of \<^verbatim>\<open>handle_new_client\<close>: a read and the lines it
  completes. \<open>loads\<close> is \<^verbatim>\<open>json.loads\<close>. \<^verbatim>\<open>recv\<close> on a socket this side has closed
  raises \<^verbatim>\<open>OSError\<close>.
\<close>

definition worker_recv ::
  "(pystr \<Rightarrow> json option) \<Rightarrow> server \<Rightarrow> string \<Rightarrow> sock \<Rightarrow> pystr \<Rightarrow> recv_event
     \<Rightarrow> wstate \<times> server" where
  "worker_recv loads st cid conn buf ev =
     (if conn \<in> set (closed_socks st) then end_thread st cid (Some OSError)
      else case ev of
             RecvRaises e \<Rightarrow> end_thread st cid (Some (os_exn e))
           | Data data \<Rightarrow>
               if data = [] then end_thread st cid None
               else (case utf8_decode data of
                       None \<Rightarrow> end_thread st cid (Some UnicodeDecodeError)
                     | Some s \<Rightarrow>
                         (case drain (\<lambda>st' line. handle_client_message st' cid (loads line))
                                 st (buf @ s) of
                            (Some e, st', buf') \<Rightarrow> end_thread st' cid (Some e)
                          | (None, st', buf') \<Rightarrow> (Running buf', st'))))"

subsection \<open>The server with its threads\<close>

text \<open>
  Threads share the server object, and another thread can run wherever the lock is not
  held. What a thread does to the shared state it does in blocks that nothing
  interrupts: a block of code under \<^verbatim>\<open>self.lock\<close>, one \<^verbatim>\<open>sendall\<close>, one \<^verbatim>\<open>close\<close>.
  A \<open>block\<close> names such a piece of server.py together with the local values it uses:
  \<^item> \<open>Snapshot_welcome\<close>: \<^verbatim>\<open>_client_list_snapshot\<close> for the welcome packet (85-90);
  \<^item> \<open>Send_json\<close>: a \<^verbatim>\<open>send_json\<close> whose exception is not caught where it is called
    (91, 160, 171);
  \<^item> \<open>Try_send\<close>: the \<^verbatim>\<open>try\<close> of \<^verbatim>\<open>send_to_client_id\<close> (230-233);
  \<^item> \<open>Broadcast\<close>: \<^verbatim>\<open>broadcast_info\<close> builds its packet and takes the lock (190-197);
  \<^item> \<open>Bcast_loop\<close>: one turn of its loop, a write or the \<^verbatim>\<open>continue\<close>, with the
    items of the registry still to visit (198-204); with none left the lock is released;
  \<^item> \<open>Lookup_send\<close>: the lookup of \<^verbatim>\<open>send_to_client_id\<close> (226-229);
  \<^item> \<open>Snapshot_list\<close>: the snapshot of \<^verbatim>\<open>send_client_list\<close> (175-179);
  \<^item> \<open>Route_lookup\<close>: the two lookups of \<^verbatim>\<open>route_chat_message\<close> (133-144);
  \<^item> \<open>Route_alloc\<close>: the allocation of the message id (147-149), with the records found
    by the lookups, the fields of the message and the time read at 136;
  \<^item> \<open>Pop\<close>: the \<^verbatim>\<open>pop\<close> of \<^verbatim>\<open>remove_client\<close> (243-245);
  \<^item> \<open>Close\<close>: the \<^verbatim>\<open>close\<close> of \<^verbatim>\<open>remove_client\<close> (246-250).
\<close>

datatype block =
    Snapshot_welcome sock string
  | Send_json sock packet
  | Try_send sock packet
  | Broadcast string string
  | Bcast_loop string pyfloat string "(string \<times> client_info) list"
  | Lookup_send string packet
  | Snapshot_list string
  | Route_lookup string "(string \<times> json) list"
  | Route_alloc string client_info "client_info option" json json json pyfloat
  | Pop string
  | Close sock string

text \<open>
  One block runs: the exception it raises, if any, the server it leaves, and the blocks
  the same thread runs next, before anything it had still to do.
\<close>

fun exec_block :: "server \<Rightarrow> block \<Rightarrow> exn option \<times> server \<times> block list" where
  "exec_block st (Snapshot_welcome conn cid) =
     (None, st, [Send_json conn (Welcome cid (client_list_snapshot st))])"
| "exec_block st (Send_json s pkt) =
     (case send_json st s pkt of (e, st') \<Rightarrow> (e, st', []))"
| "exec_block st (Try_send s pkt) =
     (case except_OSError (send_json st s pkt) of (e, st') \<Rightarrow> (e, st', []))"
| "exec_block st (Broadcast txt exclude_id) =
     (None, st, [Bcast_loop txt (time_now st) exclude_id (clients st)])"
| "exec_block st (Bcast_loop txt now exclude_id []) = (None, st, [])"
| "exec_block st (Bcast_loop txt now exclude_id ((cid, info) # others)) =
     (if cid = exclude_id then (None, st, [Bcast_loop txt now exclude_id others])
      else case except_OSError (send_json st (socket info) (InfoPkt txt now)) of
             (e, st') \<Rightarrow> (e, st', [Bcast_loop txt now exclude_id others]))"
| "exec_block st (Lookup_send cid pkt) =
     (None, st,
      case map_of (clients st) cid of
        None \<Rightarrow> []
      | Some info \<Rightarrow> [Try_send (socket info) pkt])"
| "exec_block st (Snapshot_list cid) =
     (None, st, [Lookup_send cid (ClientListPkt (client_list_snapshot st))])"
| "exec_block st (Route_lookup sender_id msg) =
     (let target_id = dict_get msg ''to'' JNull;
          txt = dict_get msg ''text'' (JStr []);
          reply = dict_get msg ''reply_to'' JNull;
          timestamp = time_now st
      in case clients_get st target_id of
           Inl e \<Rightarrow> (Some e, st, [])
         | Inr None \<Rightarrow>
             (None, st,
              [Lookup_send sender_id
                 (ErrorPkt [Lit ''Target client '', Val target_id, Lit '' not found.'']
                    (time_now st))])
         | Inr (Some ti) \<Rightarrow>
             (None, st,
              [Route_alloc sender_id ti (map_of (clients st) sender_id)
                 target_id txt reply timestamp]))"
| "exec_block st (Route_alloc sender_id ti sender_info target_id txt reply timestamp) =
     (None, st\<lparr>message_counter := message_counter st + 1\<rparr>,
      Send_json (socket ti)
        (ChatPkt (message_counter st) sender_id target_id txt timestamp reply)
      # (case sender_info of
           None \<Rightarrow> []
         | Some si \<Rightarrow>
             [Send_json (socket si)
                (ReceiptPkt (message_counter st) target_id ''delivered'' (time_now st))]))"
| "exec_block st (Pop cid) =
     (case map_of (clients st) cid of
        None \<Rightarrow> (None, st, [])
      | Some info \<Rightarrow>
          (None, st\<lparr>clients := AList.delete cid (clients st)\<rparr>, [Close (socket info) cid]))"
| "exec_block st (Close s cid) =
     (None, st\<lparr>closed_socks := List.insert s (closed_socks st)\<rparr>,
      [Broadcast (cid @ '' left the chat.'') cid])"

text \<open>
  The blocks one line starts, from the result of \<^verbatim>\<open>json.loads\<close>: the dispatch of
  \<^verbatim>\<open>handle_client_message\<close>, which touches nothing shared. \<open>now\<close> is the time read
  when the packets of \<^verbatim>\<open>send_info\<close> and \<^verbatim>\<open>send_error\<close> are built.
\<close>

definition dispatch :: "pyfloat \<Rightarrow> string \<Rightarrow> json option \<Rightarrow> exn + block list" where
  "dispatch now cid parsed =
     (case parsed of
        None \<Rightarrow> Inr []
      | Some (JObj msg) \<Rightarrow>
          (let msg_type = dict_get msg ''type'' JNull
           in if msg_type = JStr ''chat'' then Inr [Route_lookup cid msg]
              else if msg_type = JStr ''list'' then Inr [Snapshot_list cid]
              else if msg_type = JStr ''exit'' then
                Inr [Lookup_send cid (InfoPkt ''Goodbye!'' now), Pop cid]
              else Inr [Lookup_send cid
                          (ErrorPkt [Lit ''Unknown message type: '', Val msg_type] now)])
      | Some _ \<Rightarrow> Inl AttributeError)"

text \<open>
  The blocks a block can still lead to are fewer at every step, a loop apart, which has
  fewer items to visit; so a list of blocks run by one thread with no other thread in
  between comes to an end.
\<close>

fun weight :: "block \<Rightarrow> nat" where
  "weight (Bcast_loop _ _ _ _) = 0"
| "weight (Send_json _ _) = 1"
| "weight (Try_send _ _) = 1"
| "weight (Broadcast _ _) = 1"
| "weight (Snapshot_welcome _ _) = 2"
| "weight (Lookup_send _ _) = 2"
| "weight (Close _ _) = 2"
| "weight (Snapshot_list _) = 3"
| "weight (Route_alloc _ _ _ _ _ _ _) = 3"
| "weight (Pop _) = 3"
| "weight (Route_lookup _ _) = 4"

fun turns :: "block \<Rightarrow> nat" where
  "turns (Bcast_loop _ _ _ items) = Suc (length items)"
| "turns _ = 0"

lemma exec_block_weight:
  "exec_block st b = (e, st', ks) \<Longrightarrow>
     sum_list (map weight ks) < weight b
     \<or> (sum_list (map weight ks) = weight b \<and> sum_list (map turns ks) < turns b)"
proof (cases b)
  case (Bcast_loop notice now excl items)
  assume "exec_block st b = (e, st', ks)"
  with Bcast_loop show ?thesis
    by (cases items) (auto split: prod.splits if_splits)
qed (auto simp: Let_def split: prod.splits option.splits sum.splits)

function flush :: "server \<Rightarrow> block list \<Rightarrow> exn option \<times> server" where
  "flush st [] = (None, st)"
| "flush st (b # bs) =
     (case exec_block st b of
        (Some e, st', ks) \<Rightarrow> (Some e, st')
      | (None, st', ks) \<Rightarrow> flush st' (ks @ bs))"
  by pat_completeness auto
termination
  by (relation "inv_image (less_than <*lex*> less_than)
                  (\<lambda>(st, bs). (sum_list (map weight bs), sum_list (map turns bs)))")
     (auto dest!: exec_block_weight [OF sym])

text \<open>
  A thread of \<^verbatim>\<open>handle_new_client\<close>: its socket, the text read and not yet split
  into lines, the blocks it has still to run for the line in hand, and where it is:
  inside the \<^verbatim>\<open>try\<close>, past it (in \<^verbatim>\<open>finally\<close>, with the exception that took it there,
  if any), or ended, with the exception that was not caught, if any.
\<close>

datatype phase = Serving | Leaving "exn option" | Ended "exn option"

record thread =
  t_conn :: sock
  t_buf :: pystr
  t_todo :: "block list"
  t_phase :: phase

text \<open>
  The \<^verbatim>\<open>try\<close> is left, by \<^verbatim>\<open>break\<close> or by an exception: what remains is the
  \<^verbatim>\<open>remove_client\<close> of \<^verbatim>\<open>finally\<close>. The \<^verbatim>\<open>except\<close> clause catches the two connection
  errors.
\<close>

definition leave :: "string \<Rightarrow> thread \<Rightarrow> exn option \<Rightarrow> thread" where
  "leave cid t raised = t\<lparr>t_todo := [Pop cid], t_phase := Leaving raised\<rparr>"

definition uncaught :: "exn option \<Rightarrow> exn option" where
  "uncaught raised =
     (case raised of
        None \<Rightarrow> None
      | Some e \<Rightarrow>
          if e = ConnectionResetError \<or> e = ConnectionAbortedError then None else Some e)"

text \<open>
  The lock. The blocks that begin with \<^verbatim>\<open>with self.lock\<close> wait while another thread
  holds it; a thread holds it from one block to the next only inside the loop of
  \<^verbatim>\<open>broadcast_info\<close>, whose writes and those that other threads make without the lock
  (lines 91, 160, 171 and 231) can fall in any order.
\<close>

fun needs_lock :: "block \<Rightarrow> bool" where
  "needs_lock (Send_json _ _) = False"
| "needs_lock (Try_send _ _) = False"
| "needs_lock (Close _ _) = False"
| "needs_lock (Bcast_loop _ _ _ _) = False"
| "needs_lock _ = True"

fun in_loop :: "block list \<Rightarrow> bool" where
  "in_loop (Bcast_loop _ _ _ _ # _) = True"
| "in_loop _ = False"

definition holds_lock :: "thread \<Rightarrow> bool" where
  "holds_lock t = (case t_phase t of Ended e \<Rightarrow> False | _ \<Rightarrow> in_loop (t_todo t))"

definition lock_free :: "(string \<times> thread) list \<Rightarrow> bool" where
  "lock_free ths = (\<forall>(cid, t) \<in> set ths. \<not> holds_lock t)"

text \<open>
  The thread runs up to the point where another thread can next run: the first block it
  has still to do, or, with none left, the next turn of the inner loop (a line is split
  off the buffer and dispatched, which is local to the thread). \<open>free\<close> says that no
  other thread holds the lock: a thread whose next block needs the lock stays where it
  is otherwise. A thread with no block to do and no complete line in its buffer is
  waiting in \<^verbatim>\<open>recv\<close>.
\<close>

definition thread_go ::
  "(pystr \<Rightarrow> json option) \<Rightarrow> bool \<Rightarrow> server \<Rightarrow> string \<Rightarrow> thread \<Rightarrow> thread \<times> server" where
  "thread_go loads free st cid t =
     (case t_phase t of
        Ended e \<Rightarrow> (t, st)
      | Leaving raised \<Rightarrow>
          (case t_todo t of
             [] \<Rightarrow> (t\<lparr>t_phase := Ended (uncaught raised)\<rparr>, st)
           | b # bs \<Rightarrow>
               if needs_lock b \<and> \<not> free then (t, st)
               else (case exec_block st b of
                       (Some e, st', ks) \<Rightarrow>
                         (t\<lparr>t_todo := [], t_phase := Ended (Some e)\<rparr>, st')
                     | (None, st', ks) \<Rightarrow> (t\<lparr>t_todo := ks @ bs\<rparr>, st')))
      | Serving \<Rightarrow>
          (case t_todo t of
             b # bs \<Rightarrow>
               if needs_lock b \<and> \<not> free then (t, st)
               else (case exec_block st b of
                       (Some e, st', ks) \<Rightarrow> (leave cid t (Some e), st')
                     | (None, st', ks) \<Rightarrow> (t\<lparr>t_todo := ks @ bs\<rparr>, st'))
           | [] \<Rightarrow>
               if DELIMITER \<in> set (t_buf t) then
                 (let line = takeWhile (\<lambda>c. c \<noteq> DELIMITER) (t_buf t);
                      rest = tl (dropWhile (\<lambda>c. c \<noteq> DELIMITER) (t_buf t))
                  in if strip line \<noteq> [] then
                       (case dispatch (time_now st) cid (loads line) of
                          Inl e \<Rightarrow> (leave cid (t\<lparr>t_buf := rest\<rparr>) (Some e), st)
                        | Inr bs \<Rightarrow> (t\<lparr>t_buf := rest, t_todo := bs\<rparr>, st))
                     else (t\<lparr>t_buf := rest\<rparr>, st))
               else (t, st)))"

text \<open>
  The \<^verbatim>\<open>recv\<close> of a waiting thread returns: \<^verbatim>\<open>recv\<close> on a socket this side has closed
  raises \<^verbatim>\<open>OSError\<close>, no data leaves the loop, data that is not UTF-8 raises, and other
  data is appended to the buffer. A thread that is not waiting is not affected.
\<close>

definition thread_recv :: "server \<Rightarrow> string \<Rightarrow> thread \<Rightarrow> recv_event \<Rightarrow> thread" where
  "thread_recv st cid t ev =
     (if t_phase t = Serving \<and> t_todo t = [] \<and> DELIMITER \<notin> set (t_buf t) then
        (if t_conn t \<in> set (closed_socks st) then leave cid t (Some OSError)
         else case ev of
                RecvRaises e \<Rightarrow> leave cid t (Some (os_exn e))
              | Data data \<Rightarrow>
                  if data = [] then leave cid t None
                  else (case utf8_decode data of
                          None \<Rightarrow> leave cid t (Some UnicodeDecodeError)
                        | Some s \<Rightarrow> t\<lparr>t_buf := t_buf t @ s\<rparr>))
      else t)"

text \<open>
  The server, its threads by identity, and the message ids handed out so far, in the
  order in which they were handed out: \<open>allocated\<close> is not a variable of the program,
  it records the value \<^verbatim>\<open>self.message_counter\<close> had each time a step moved it (lines
  148-149 are the only ones that write it).
\<close>

record system =
  srv :: server
  threads :: "(string \<times> thread) list"
  allocated :: "int list"

datatype op = Accept sock addr | Recv string recv_event | Go string

text \<open>
  One step of the whole server. \<open>Accept\<close>: the accept loop starts a thread, and the
  thread runs its first block, the registration under the lock (74-81), which it can do
  when no thread holds the lock; the welcome and the join notice are what it has still
  to do. \<open>Recv\<close>: the \<^verbatim>\<open>recv\<close> of a waiting thread returns. \<open>Go\<close>: a thread runs
  up to the point where another thread can next run. A list of such steps is one
  interleaving of the threads.
\<close>

fun step :: "(pystr \<Rightarrow> json option) \<Rightarrow> system \<Rightarrow> op \<Rightarrow> system" where
  "step loads sys (Accept conn a) =
     (if lock_free (threads sys) then
        (case register (srv sys) conn a of
           (cid, st') \<Rightarrow>
             sys\<lparr>srv := st',
                 threads := threads sys @
                   [(cid, \<lparr>t_conn = conn, t_buf = [],
                           t_todo = [Snapshot_welcome conn cid,
                                     Broadcast (cid @ '' joined the chat.'') cid],
                           t_phase = Serving\<rparr>)]\<rparr>)
      else sys)"
| "step loads sys (Recv cid ev) =
     (case map_of (threads sys) cid of
        None \<Rightarrow> sys
      | Some t \<Rightarrow>
          sys\<lparr>threads := AList.update cid (thread_recv (srv sys) cid t ev) (threads sys)\<rparr>)"
| "step loads sys (Go cid) =
     (case map_of (threads sys) cid of
        None \<Rightarrow> sys
      | Some t \<Rightarrow>
          (case thread_go loads (lock_free (AList.delete cid (threads sys))) (srv sys) cid t of
             (t', st') \<Rightarrow>
               sys\<lparr>srv := st', threads := AList.update cid t' (threads sys),
                   allocated := allocated sys @
                     (if message_counter st' = message_counter (srv sys) then []
                      else [message_counter (srv sys)])\<rparr>))"

definition run :: "(pystr \<Rightarrow> json option) \<Rightarrow> system \<Rightarrow> op list \<Rightarrow> system" where
  "run loads sys ops = foldl (step loads) sys ops"

section \<open>Notions used in the statements\<close>

text \<open>Reading a decimal rendering back, to show that the rendering loses nothing.\<close>

definition digit_val :: "char \<Rightarrow> nat" where
  "digit_val c = length (takeWhile (\<lambda>d. d \<noteq> c) ''0123456789'')"

definition undec :: "string \<Rightarrow> nat" where
  "undec ds = foldl (\<lambda>a c. 10 * a + digit_val c) 0 ds"

definition unfmt :: "string \<Rightarrow> int" where
  "unfmt s = (case s of
                [] \<Rightarrow> 0
              | c # cs \<Rightarrow> if c = CHR ''-'' then - int (undec cs) else int (undec s))"

text \<open>
  The message ids of the chat packets on the wire, in the order they were written, and
  those of the receipts. \<open>ids_inv\<close> says that the identities given out so far are
  distinct and come from counter values already passed; \<open>alloc_inv\<close> that the message
  ids handed out so far are increasing and below the counter.
\<close>

definition chat_ids :: "(sock \<times> packet) list \<Rightarrow> int list" where
  "chat_ids w = map (\<lambda>(s, p). message_id p) (filter (\<lambda>(s, p). is_ChatPkt p) w)"

definition init_system :: "pyfloat \<Rightarrow> system" where
  "init_system t = \<lparr>srv = init_server t, threads = [], allocated = []\<rparr>"

definition ids_inv :: "system \<Rightarrow> bool" where
  "ids_inv sys =
     (distinct (map fst (threads sys))
      \<and> (\<forall>cid \<in> set (map fst (threads sys)).
            \<exists>k. k < next_client_id (srv sys) \<and> cid = CHR ''C'' # fmt_03d k))"

text \<open>
  The chat packets a thread has still to write: the ids of those in the blocks it has
  to run, as a multiset, and those of all threads together.
\<close>

definition pkt_chats :: "packet \<Rightarrow> int multiset" where
  "pkt_chats p = (if is_ChatPkt p then {#message_id p#} else {#})"

fun block_chats :: "block \<Rightarrow> int multiset" where
  "block_chats (Send_json s p) = pkt_chats p"
| "block_chats (Try_send s p) = pkt_chats p"
| "block_chats (Lookup_send cid p) = pkt_chats p"
| "block_chats _ = {#}"

definition todo_chats :: "block list \<Rightarrow> int multiset" where
  "todo_chats bs = sum_list (map block_chats bs)"

definition pending :: "(string \<times> thread) list \<Rightarrow> int multiset" where
  "pending ths = sum_list (map (\<lambda>(cid, t). todo_chats (t_todo t)) ths)"

definition wire_inv :: "system \<Rightarrow> bool" where
  "wire_inv sys =
     (mset (chat_ids (wire (srv sys))) + pending (threads sys) \<subseteq># mset (allocated sys))"

definition alloc_inv :: "system \<Rightarrow> bool" where
  "alloc_inv sys =
     (sorted_wrt (<) (allocated sys)
      \<and> (\<forall>i \<in> set (allocated sys). i < message_counter (srv sys)))"

text \<open>
  Two results of the read loop agree: the same exception or none, the same state (so the
  handler was given the same lines), the same answer to whether the loop still reads,
  and, when no exception has left the loop, the same buffer.
\<close>

definition same_outcome ::
  "exn option \<times> 's \<times> pystr \<times> bool \<Rightarrow> exn option \<times> 's \<times> pystr \<times> bool \<Rightarrow> bool" where
  "same_outcome r1 r2 =
     (case (r1, r2) of
        ((e1, s1, b1, g1), (e2, s2, b2, g2)) \<Rightarrow>
          e1 = e2 \<and> s1 = s2 \<and> g1 = g2 \<and> (e1 = None \<longrightarrow> b1 = b2))"

section \<open>Example states\<close>

text \<open>Concrete histories and clients on which the theorems below are instantiated.\<close>

definition ex_out :: "string \<Rightarrow> string \<Rightarrow> entry" where
  "ex_out peer txt = \<lparr>m_id = None, m_direction = ''out'', m_peer = JStr peer,
     m_text = JStr txt, m_timestamp = Some (Finite 100), m_reply_to = JNull,
     m_temp_until = None, m_deleted = False\<rparr>"

definition ex_in :: "int \<Rightarrow> string \<Rightarrow> string \<Rightarrow> entry" where
  "ex_in mid peer txt = \<lparr>m_id = Some mid, m_direction = ''in'', m_peer = JStr peer,
     m_text = JStr txt, m_timestamp = Some (Finite 100), m_reply_to = JNull,
     m_temp_until = None, m_deleted = False\<rparr>"

definition ex_client :: "entry list \<Rightarrow> client" where
  "ex_client h = \<lparr>history = h, outbox = [], console = [], timers = [],
     clock = Finite 100, link_fault = None\<rparr>"

text \<open>Two temporary messages with the same text and the same deadline.\<close>

definition ex_two_temps :: client where
  "ex_two_temps =
     snd (send_temp_message 1000
            (snd (send_temp_message 1000 (ex_client []) ''C002'' ''hi'' (Finite 105)))
            ''C002'' ''hi'' (Finite 105))"

definition ex_temp :: "string \<Rightarrow> pyfloat \<Rightarrow> entry" where
  "ex_temp txt t = (ex_out ''C002'' txt)\<lparr>m_temp_until := Some t\<rparr>"

text \<open>A server with two clients connected, \<^verbatim>\<open>C001\<close> on socket 1 and \<^verbatim>\<open>C002\<close> on socket 2.\<close>

definition ex_info :: "sock \<Rightarrow> string \<Rightarrow> client_info" where
  "ex_info s cid = \<lparr>socket = s, address = \<lparr>host = ''127.0.0.1'', port = 50000 + s\<rparr>, name = cid\<rparr>"

definition ex_server :: server where
  "ex_server = \<lparr>clients = [(''C001'', ex_info 1 ''C001''), (''C002'', ex_info 2 ''C002'')],
     next_client_id = 3, message_counter = 1, wire = [], closed_socks = [], faults = [],
     time_now = Finite 100\<rparr>"

text \<open>
  The same with a third client, \<^verbatim>\<open>C003\<close> on socket 3, and with the peer of \<^verbatim>\<open>C002\<close>
  gone: a write to socket 2 fails with \<^verbatim>\<open>EPIPE\<close>.
\<close>

definition ex_server_broken :: server where
  "ex_server_broken =
     \<lparr>clients = [(''C001'', ex_info 1 ''C001''), (''C002'', ex_info 2 ''C002''),
                 (''C003'', ex_info 3 ''C003'')],
      next_client_id = 4, message_counter = 1, wire = [], closed_socks = [],
      faults = [(2, EPIPE)], time_now = Finite 100\<rparr>"

text \<open>ASCII text as code points and as bytes, and \<^verbatim>\<open>json.loads\<close> on the lines used below.\<close>

definition ascii :: "string \<Rightarrow> pystr" where
  "ascii s = map of_char s"

definition ascii_bytes :: "string \<Rightarrow> byte list" where
  "ascii_bytes s = map of_char s"

definition ex_loads :: "pystr \<Rightarrow> json option" where
  "ex_loads line =
     (if line = ascii ''{\"type\": \"exit\"}'' then Some (JObj [(''type'', JStr ''exit'')])
      else if line = ascii ''{\"type\": \"chat\", \"to\": \"C002\", \"text\": \"hi\"}''
      then Some (JObj [(''type'', JStr ''chat''), (''to'', JStr ''C002''), (''text'', JStr ''hi'')])
      else None)"

text \<open>
  Two clients connect, and each sends \<^verbatim>\<open>C002\<close> a chat packet. The thread of
  \<^verbatim>\<open>C001\<close> is the first to allocate a message id and the second to write its packet.
\<close>

definition ex_chat_line :: "byte list" where
  "ex_chat_line = ascii_bytes ''{\"type\": \"chat\", \"to\": \"C002\", \"text\": \"hi\"}'' @ [10]"

definition ex_ops :: "op list" where
  "ex_ops = [Accept 1 \<lparr>host = ''127.0.0.1'', port = 50001\<rparr>,
             Go ''C001'', Go ''C001'', Go ''C001'', Go ''C001'', Go ''C001'',
             Accept 2 \<lparr>host = ''127.0.0.1'', port = 50002\<rparr>,
             Go ''C002'', Go ''C002'', Go ''C002'', Go ''C002'', Go ''C002'', Go ''C002'',
             Recv ''C001'' (Data ex_chat_line), Recv ''C002'' (Data ex_chat_line),
             Go ''C001'', Go ''C001'', Go ''C001'',
             Go ''C002'', Go ''C002'', Go ''C002'',
             Go ''C002'', Go ''C002'',
             Go ''C001'', Go ''C001'']"

text \<open>One chat packet in UTF-8 whose text has a two-byte character, with its newline.\<close>

definition ex_stream :: "byte list" where
  "ex_stream = ascii_bytes ''{\"type\": \"chat\", \"to\": \"C002\", \"text\": \"caf'' @ [0xC3, 0xA9]
               @ ascii_bytes ''\"}'' @ [10]"

section \<open>Server: evaluation and sending\<close>

lemmas server_defs = route_chat_message_def handle_client_message_def send_info_def
  send_error_def send_client_list_def send_to_client_id_def send_json_def except_OSError_def
  is_OSError_def broadcast_info_def remove_client_def dict_get_def end_thread_def
  worker_recv_def client_list_snapshot_def Let_def

lemmas framing_defs = drain.simps DELIMITER_def strip_def is_space_def is_cont_def
  ascii_def ascii_bytes_def

lemma send_json_writable:
  "writable st s \<Longrightarrow> send_json st s p = (None, st\<lparr>wire := wire st @ [(s, p)]\<rparr>)"
  by (simp add: send_json_def writable_def)

lemma send_json_unwritable:
  "\<not> writable st s \<Longrightarrow> \<exists>e. send_json st s p = (Some e, st) \<and> is_OSError e"
  by (cases "map_of (faults st) s"; cases "the (map_of (faults st) s)")
     (auto simp: send_json_def writable_def is_OSError_def)

lemma writable_wire [simp]: "writable (st\<lparr>wire := w\<rparr>) s = writable st s"
  by (simp add: writable_def)

lemma try_send_json:
  "except_OSError (send_json st s p) =
     (None, if writable st s then st\<lparr>wire := wire st @ [(s, p)]\<rparr> else st)"
proof (cases "writable st s")
  case True
  then show ?thesis by (simp add: send_json_writable except_OSError_def)
next
  case False
  from send_json_unwritable [OF False]
  obtain e where "send_json st s p = (Some e, st)" "is_OSError e" by blast
  with False show ?thesis by (simp add: except_OSError_def)
qed

lemma notices_wire [simp]: "notices (st\<lparr>wire := w\<rparr>) pkt ex cl = notices st pkt ex cl"
  by (simp add: notices_def)

lemma broadcast_loop_eq:
  "broadcast_loop st pkt ex cl = (None, st\<lparr>wire := wire st @ notices st pkt ex cl\<rparr>)"
proof (induction cl arbitrary: st)
  case Nil
  show ?case by (simp add: notices_def)
next
  case (Cons x cl)
  obtain cid info where x: "x = (cid, info)" by (cases x)
  show ?case
    by (simp add: x Cons.IH try_send_json) (simp add: notices_def)
qed

section \<open>The identity format is injective\<close>

lemma digit_cases:
  "d < 10 \<Longrightarrow> d = 0 \<or> d = 1 \<or> d = 2 \<or> d = 3 \<or> d = 4 \<or> d = 5 \<or> d = 6 \<or> d = 7 \<or> d = 8 \<or> d = (9::nat)"
  by arith

lemma digit_val_digit_char: "d < 10 \<Longrightarrow> digit_val (digit_char d) = d"
  using digit_cases [of d] by (auto simp: digit_char_def digit_val_def)

lemma digit_char_not_minus: "d < 10 \<Longrightarrow> digit_char d \<noteq> CHR ''-''"
  using digit_cases [of d] by (auto simp: digit_char_def)

lemma undec_snoc: "undec (ds @ [c]) = 10 * undec ds + digit_val c"
  by (simp add: undec_def)

lemma undec_dec_nat: "undec (dec_nat n) = n"
proof (induction n rule: dec_nat.induct)
  case (1 n)
  show ?case
  proof (cases "n < 10")
    case True
    then show ?thesis
      by (subst dec_nat.simps) (simp add: undec_def digit_val_digit_char)
  next
    case False
    with 1 have "undec (dec_nat (n div 10)) = n div 10" by simp
    with False show ?thesis
      by (subst dec_nat.simps) (simp add: undec_snoc digit_val_digit_char)
  qed
qed

lemma dec_nat_nonempty: "dec_nat n \<noteq> []"
  by (subst dec_nat.simps) simp

lemma hd_dec_nat_not_minus: "hd (dec_nat n) \<noteq> CHR ''-''"
proof (induction n rule: dec_nat.induct)
  case (1 n)
  show ?case
  proof (cases "n < 10")
    case True
    then show ?thesis
      by (subst dec_nat.simps) (simp add: digit_char_not_minus)
  next
    case False
    with 1 have "hd (dec_nat (n div 10)) \<noteq> CHR ''-''" by simp
    with False show ?thesis
      by (subst dec_nat.simps) (simp add: dec_nat_nonempty)
  qed
qed

lemma undec_zeros: "undec (replicate k (CHR ''0'') @ ds) = undec ds"
proof -
  have "foldl (\<lambda>a c. 10 * a + digit_val c) 0 (replicate k (CHR ''0'')) = 0"
    by (induction k) (simp_all add: digit_val_def)
  then show ?thesis by (simp add: undec_def)
qed

lemma hd_padded_not_minus: "hd (replicate k (CHR ''0'') @ dec_nat n) \<noteq> CHR ''-''"
  by (cases k) (simp_all add: hd_dec_nat_not_minus dec_nat_nonempty hd_append)

lemma unfmt_fmt_03d: "unfmt (fmt_03d n) = n"
proof (cases "n < 0")
  case True
  then show ?thesis
    by (simp add: fmt_03d_def unfmt_def undec_zeros undec_dec_nat Let_def)
next
  case False
  let ?s = "replicate (3 - length (dec_nat (nat \<bar>n\<bar>))) (CHR ''0'') @ dec_nat (nat \<bar>n\<bar>)"
  have ne: "?s \<noteq> []" by (simp add: dec_nat_nonempty)
  then obtain c cs where s: "?s = c # cs" by (cases ?s) auto
  have "hd ?s \<noteq> CHR ''-''" by (rule hd_padded_not_minus)
  with s have "c \<noteq> CHR ''-''" by simp
  with s have "unfmt ?s = int (undec ?s)" by (simp add: unfmt_def)
  also have "\<dots> = int (nat \<bar>n\<bar>)" by (simp only: undec_zeros undec_dec_nat)
  also have "\<dots> = n" using False by simp
  finally show ?thesis using False by (simp add: fmt_03d_def Let_def)
qed

lemma fmt_03d_inj: "fmt_03d a = fmt_03d b \<Longrightarrow> a = b"
  by (metis unfmt_fmt_03d)

section \<open>What every step of the server preserves\<close>

lemma chat_ids_append [simp]: "chat_ids (a @ b) = chat_ids a @ chat_ids b"
  by (simp add: chat_ids_def)

lemma chat_ids_Nil [simp]: "chat_ids [] = []"
  by (simp add: chat_ids_def)

lemma chat_ids_notices_info [simp]: "chat_ids (notices st (InfoPkt txt t) ex cl) = []"
  by (induction cl) (auto simp: chat_ids_def notices_def)

lemma chat_ids_single: "mset (chat_ids [(s, p)]) = pkt_chats p"
  by (simp add: chat_ids_def pkt_chats_def)

lemma send_to_client_id_eq:
  "send_to_client_id st cid pkt =
     (None, case map_of (clients st) cid of
              None \<Rightarrow> st
            | Some info \<Rightarrow>
                if writable st (socket info) then st\<lparr>wire := wire st @ [(socket info, pkt)]\<rparr>
                else st)"
  by (simp add: send_to_client_id_def try_send_json split: option.splits)

lemma broadcast_info_eq:
  "broadcast_info st txt ex =
     (None, st\<lparr>wire := wire st @ notices st (InfoPkt txt (time_now st)) ex (clients st)\<rparr>)"
  by (simp add: broadcast_info_def broadcast_loop_eq)

lemma remove_client_eq:
  "remove_client st cid =
     (None, case map_of (clients st) cid of
              None \<Rightarrow> st
            | Some info \<Rightarrow>
                st\<lparr>clients := AList.delete cid (clients st),
                   closed_socks := List.insert (socket info) (closed_socks st),
                   wire := wire st @
                     notices (st\<lparr>closed_socks := List.insert (socket info) (closed_socks st)\<rparr>)
                       (InfoPkt (cid @ '' left the chat.'') (time_now st)) cid
                       (AList.delete cid (clients st))\<rparr>)"
  by (simp add: remove_client_def broadcast_info_def broadcast_loop_eq notices_def writable_def
      split: option.splits)

lemma register_counter: "next_client_id (snd (register st conn a)) = next_client_id st + 1"
  by (simp add: register_def Let_def)

lemma register_message_counter:
  "message_counter (snd (register st conn a)) = message_counter st"
  by (simp add: register_def Let_def)

lemma register_wire: "wire (snd (register st conn a)) = wire st"
  by (simp add: register_def Let_def)

lemma register_id: "fst (register st conn a) = CHR ''C'' # fmt_03d (next_client_id st)"
  by (simp add: register_def Let_def)

lemma send_json_cases:
  "send_json st s p = (e, st') \<Longrightarrow>
     (e = None \<and> st' = st\<lparr>wire := wire st @ [(s, p)]\<rparr>) \<or> (e \<noteq> None \<and> st' = st)"
  by (auto simp: send_json_def split: if_splits option.splits)

subsection \<open>One block\<close>

text \<open>
  No block writes the identity counter, and only the allocation block writes the message
  counter, which it moves up by one.
\<close>

lemma exec_block_next_client_id:
  "exec_block st b = (e, st', ks) \<Longrightarrow> next_client_id st' = next_client_id st"
  by (cases "(st, b)" rule: exec_block.cases)
     (auto simp: Let_def try_send_json dest!: send_json_cases
           split: prod.splits option.splits sum.splits if_splits)

lemma exec_block_message_counter:
  "exec_block st b = (e, st', ks) \<Longrightarrow>
     message_counter st' = message_counter st \<or> message_counter st' = message_counter st + 1"
  by (cases "(st, b)" rule: exec_block.cases)
     (auto simp: Let_def try_send_json dest!: send_json_cases
           split: prod.splits option.splits sum.splits if_splits)

text \<open>
  The chat packets a block writes and those it leaves to be written were to be written
  by it, or carry the id the block has just allocated.
\<close>

lemma exec_block_chats:
  "exec_block st b = (e, st', ks) \<Longrightarrow>
     \<exists>w. wire st' = wire st @ w
        \<and> mset (chat_ids w) + todo_chats ks
            \<subseteq># block_chats b
                + (if message_counter st' = message_counter st then {#}
                   else {#message_counter st#})"
proof (cases b)
  case (Send_json s p)
  assume "exec_block st b = (e, st', ks)"
  with Send_json have ks: "ks = []" and sj: "send_json st s p = (e, st')"
    by (auto split: prod.splits)
  from send_json_cases [OF sj] show ?thesis
  proof
    assume "e = None \<and> st' = st\<lparr>wire := wire st @ [(s, p)]\<rparr>"
    then have "wire st' = wire st @ [(s, p)]" "message_counter st' = message_counter st"
      by simp_all
    then show ?thesis using Send_json ks
      by (intro exI [of _ "[(s, p)]"]) (simp add: chat_ids_single todo_chats_def)
  next
    assume "e \<noteq> None \<and> st' = st"
    then show ?thesis using Send_json ks
      by (intro exI [of _ "[]"]) (simp add: todo_chats_def)
  qed
next
  case (Try_send s p)
  assume "exec_block st b = (e, st', ks)"
  with Try_send have ks: "ks = []"
    and st': "st' = (if writable st s then st\<lparr>wire := wire st @ [(s, p)]\<rparr> else st)"
    by (auto simp: try_send_json split: prod.splits)
  show ?thesis
  proof (cases "writable st s")
    case True
    with st' Try_send ks show ?thesis
      by (intro exI [of _ "[(s, p)]"]) (simp add: chat_ids_single todo_chats_def)
  next
    case False
    with st' Try_send ks show ?thesis
      by (intro exI [of _ "[]"]) (simp add: todo_chats_def)
  qed
next
  case (Bcast_loop notice now excl items)
  assume x: "exec_block st b = (e, st', ks)"
  show ?thesis
  proof (cases items)
    case Nil
    with x Bcast_loop show ?thesis
      by (intro exI [of _ "[]"]) (simp add: todo_chats_def)
  next
    case (Cons item others)
    obtain cid info where item: "item = (cid, info)" by (cases item)
    show ?thesis
    proof (cases "cid \<noteq> excl \<and> writable st (socket info)")
      case True
      with x Bcast_loop Cons item show ?thesis
        by (intro exI [of _ "[(socket info, InfoPkt notice now)]"])
           (auto simp: try_send_json todo_chats_def chat_ids_def)
    next
      case False
      with x Bcast_loop Cons item show ?thesis
        by (intro exI [of _ "[]"])
           (auto simp: try_send_json todo_chats_def split: if_splits)
    qed
  qed
next
  case (Route_alloc sender_id ti si tgt body reply ts)
  assume "exec_block st b = (e, st', ks)"
  with Route_alloc show ?thesis
    by (intro exI [of _ "[]"])
       (auto simp: todo_chats_def pkt_chats_def split: option.splits)
next
  case (Route_lookup sender_id msg)
  assume "exec_block st b = (e, st', ks)"
  with Route_lookup show ?thesis
    by (intro exI [of _ "[]"])
       (auto simp: todo_chats_def pkt_chats_def Let_def split: option.splits sum.splits)
qed (auto simp: todo_chats_def pkt_chats_def split: option.splits)

subsection \<open>One thread\<close>

text \<open>
  What a step of a thread does to the server and to the blocks the thread has still to
  run: it runs the first of them, or it touches nothing shared and is left with blocks
  that write no chat packet.
\<close>

lemma dispatch_chats: "dispatch now cid parsed = Inr bs \<Longrightarrow> todo_chats bs = {#}"
  by (auto simp: dispatch_def todo_chats_def pkt_chats_def Let_def
           split: option.splits json.splits if_splits)

lemma todo_chats_Nil [simp]: "todo_chats [] = {#}"
  by (simp add: todo_chats_def)

lemma todo_chats_Pop [simp]: "todo_chats [Pop cid] = {#}"
  by (simp add: todo_chats_def)

lemma thread_go_cases:
  assumes "thread_go loads free st cid t = (t', st')"
  shows "(st' = st \<and> todo_chats (t_todo t') \<subseteq># todo_chats (t_todo t))
       \<or> (\<exists>b bs e ks. t_todo t = b # bs \<and> exec_block st b = (e, st', ks)
             \<and> (t_todo t' = ks @ bs \<or> todo_chats (t_todo t') = {#}))"
proof (cases "t_phase t")
  case (Ended e)
  with assms show ?thesis by (simp add: thread_go_def)
next
  case (Leaving raised)
  show ?thesis
  proof (cases "t_todo t")
    case Nil
    with Leaving assms show ?thesis by (auto simp: thread_go_def)
  next
    case (Cons b bs)
    show ?thesis
    proof (cases "needs_lock b \<and> \<not> free")
      case True
      with Leaving Cons assms show ?thesis by (simp add: thread_go_def)
    next
      case False
      obtain e st1 ks where x: "exec_block st b = (e, st1, ks)" by (cases "exec_block st b")
      with False Leaving Cons assms have "st' = st1"
        and "t_todo t' = ks @ bs \<or> t_todo t' = []"
        by (auto simp: thread_go_def split: option.splits)
      with Cons x show ?thesis by (auto simp: todo_chats_def)
    qed
  qed
next
  case Serving
  show ?thesis
  proof (cases "t_todo t")
    case (Cons b bs)
    show ?thesis
    proof (cases "needs_lock b \<and> \<not> free")
      case True
      with Serving Cons assms show ?thesis by (simp add: thread_go_def)
    next
      case False
      obtain e st1 ks where x: "exec_block st b = (e, st1, ks)" by (cases "exec_block st b")
      with False Serving Cons assms have "st' = st1"
        and "t_todo t' = ks @ bs \<or> t_todo t' = [Pop cid]"
        by (auto simp: thread_go_def leave_def split: option.splits)
      with Cons x show ?thesis by (auto simp: todo_chats_def)
    qed
  next
    case Nil
    with Serving assms have "st' = st" and "todo_chats (t_todo t') = {#}"
      by (auto simp: thread_go_def leave_def Let_def dispatch_chats
               split: if_splits sum.splits)
    then show ?thesis by simp
  qed
qed

lemma thread_go_next_client_id:
  "thread_go loads free st cid t = (t', st') \<Longrightarrow> next_client_id st' = next_client_id st"
  using thread_go_cases [of loads free st cid t t' st']
  by (auto dest: exec_block_next_client_id)

lemma thread_go_message_counter:
  "thread_go loads free st cid t = (t', st') \<Longrightarrow>
     message_counter st' = message_counter st \<or> message_counter st' = message_counter st + 1"
  using thread_go_cases [of loads free st cid t t' st']
  by (auto dest: exec_block_message_counter)

lemma thread_go_chats:
  assumes "thread_go loads free st cid t = (t', st')"
  shows "\<exists>w. wire st' = wire st @ w
           \<and> mset (chat_ids w) + todo_chats (t_todo t')
               \<subseteq># todo_chats (t_todo t)
                   + (if message_counter st' = message_counter st then {#}
                      else {#message_counter st#})"
proof -
  from thread_go_cases [OF assms] show ?thesis
  proof
    assume "st' = st \<and> todo_chats (t_todo t') \<subseteq># todo_chats (t_todo t)"
    then show ?thesis by (intro exI [of _ "[]"]) simp
  next
    assume "\<exists>b bs e ks. t_todo t = b # bs \<and> exec_block st b = (e, st', ks)
             \<and> (t_todo t' = ks @ bs \<or> todo_chats (t_todo t') = {#})"
    then obtain b bs e ks where t: "t_todo t = b # bs" and x: "exec_block st b = (e, st', ks)"
      and t': "t_todo t' = ks @ bs \<or> todo_chats (t_todo t') = {#}" by blast
    from exec_block_chats [OF x] obtain w where w: "wire st' = wire st @ w"
      and sub: "mset (chat_ids w) + todo_chats ks
            \<subseteq># block_chats b
                + (if message_counter st' = message_counter st then {#}
                   else {#message_counter st#})" by blast
    let ?new = "if message_counter st' = message_counter st then {#}
                else {#message_counter st#}"
    have full: "mset (chat_ids w) + todo_chats (ks @ bs) \<subseteq># todo_chats (b # bs) + ?new"
    proof -
      have "mset (chat_ids w) + todo_chats (ks @ bs)
              = (mset (chat_ids w) + todo_chats ks) + todo_chats bs"
        by (simp add: todo_chats_def)
      also have "\<dots> \<subseteq># (block_chats b + ?new) + todo_chats bs"
        using sub by (rule subset_mset.add_right_mono)
      also have "\<dots> = todo_chats (b # bs) + ?new"
        by (simp add: todo_chats_def)
      finally show ?thesis .
    qed
    from t' have "mset (chat_ids w) + todo_chats (t_todo t') \<subseteq># todo_chats (b # bs) + ?new"
    proof
      assume "t_todo t' = ks @ bs"
      with full show ?thesis by simp
    next
      assume e: "todo_chats (t_todo t') = {#}"
      have "mset (chat_ids w) \<subseteq># mset (chat_ids w) + todo_chats (ks @ bs)" by simp
      from this full have "mset (chat_ids w) \<subseteq># todo_chats (b # bs) + ?new"
        by (rule subset_mset.order_trans)
      with e show ?thesis by simp
    qed
    with w t show ?thesis by (intro exI [of _ w]) simp
  qed
qed

subsection \<open>The whole server\<close>

lemma pending_append [simp]: "pending (a @ b) = pending a + pending b"
  by (simp add: pending_def)

lemma pending_update:
  "map_of ths cid = Some t \<Longrightarrow>
     pending (AList.update cid t' ths) + todo_chats (t_todo t)
       = pending ths + todo_chats (t_todo t')"
proof (induction ths)
  case Nil
  then show ?case by simp
next
  case (Cons x ths)
  obtain c u where x: "x = (c, u)" by (cases x)
  show ?case
  proof (cases "c = cid")
    case True
    with Cons.prems x show ?thesis by (simp add: pending_def)
  next
    case False
    with Cons.prems x have "map_of ths cid = Some t" by simp
    from Cons.IH [OF this] False x show ?thesis by (simp add: pending_def)
  qed
qed

lemma update_keys_present:
  "map_of ths cid = Some t \<Longrightarrow> map fst (AList.update cid t' ths) = map fst ths"
proof -
  assume "map_of ths cid = Some t"
  then have "cid \<in> fst ` set ths" by (metis domI dom_map_of_conv_image_fst)
  then show ?thesis by (simp add: update_keys)
qed

lemma thread_recv_todo:
  "todo_chats (t_todo (thread_recv st cid t ev)) \<subseteq># todo_chats (t_todo t)"
  by (auto simp: thread_recv_def leave_def todo_chats_def
           split: recv_event.splits option.splits)

lemma step_next_client_id:
  "next_client_id (srv sys) \<le> next_client_id (srv (step loads sys op))"
proof (cases op)
  case (Accept conn a)
  obtain cid st' where h: "register (srv sys) conn a = (cid, st')"
    by (cases "register (srv sys) conn a")
  with Accept register_counter [of "srv sys" conn a] show ?thesis by simp
next
  case (Recv cid ev)
  then show ?thesis by (simp split: option.splits)
next
  case (Go cid)
  then show ?thesis
    by (auto split: option.splits prod.splits dest: thread_go_next_client_id)
qed

lemma run_next_client_id:
  "next_client_id (srv sys) \<le> next_client_id (srv (run loads sys ops))"
  unfolding run_def
proof (induction ops arbitrary: sys)
  case Nil
  show ?case by simp
next
  case (Cons op ops)
  have "next_client_id (srv sys) \<le> next_client_id (srv (step loads sys op))"
    by (rule step_next_client_id)
  also have "\<dots> \<le> next_client_id (srv (foldl (step loads) (step loads sys op) ops))"
    by (rule Cons.IH)
  finally show ?case by simp
qed

lemma ids_inv_step: "ids_inv sys \<Longrightarrow> ids_inv (step loads sys op)"
proof (cases op)
  case (Accept conn a)
  assume inv: "ids_inv sys"
  obtain cid st' where h: "register (srv sys) conn a = (cid, st')"
    by (cases "register (srv sys) conn a")
  have cid: "cid = CHR ''C'' # fmt_03d (next_client_id (srv sys))"
    using register_id [of "srv sys" conn a] h by simp
  have n: "next_client_id st' = next_client_id (srv sys) + 1"
    using register_counter [of "srv sys" conn a] h by simp
  have fresh: "cid \<notin> set (map fst (threads sys))"
  proof
    assume "cid \<in> set (map fst (threads sys))"
    with inv obtain k where "k < next_client_id (srv sys)" "cid = CHR ''C'' # fmt_03d k"
      unfolding ids_inv_def by blast
    with cid have "fmt_03d k = fmt_03d (next_client_id (srv sys))" by simp
    then have "k = next_client_id (srv sys)" by (rule fmt_03d_inj)
    with \<open>k < next_client_id (srv sys)\<close> show False by simp
  qed
  have "\<forall>c \<in> set (map fst (threads sys)). \<exists>k. k < next_client_id st' \<and> c = CHR ''C'' # fmt_03d k"
  proof
    fix c assume "c \<in> set (map fst (threads sys))"
    with inv obtain k where "k < next_client_id (srv sys)" "c = CHR ''C'' # fmt_03d k"
      unfolding ids_inv_def by blast
    with n show "\<exists>k. k < next_client_id st' \<and> c = CHR ''C'' # fmt_03d k"
      by (intro exI [of _ k]) simp
  qed
  moreover have "\<exists>k. k < next_client_id st' \<and> cid = CHR ''C'' # fmt_03d k"
    using cid n by (intro exI [of _ "next_client_id (srv sys)"]) simp
  ultimately show ?thesis
    using inv fresh Accept h by (simp add: ids_inv_def)
next
  case (Recv cid ev)
  assume inv: "ids_inv sys"
  show ?thesis
  proof (cases "map_of (threads sys) cid")
    case None
    with Recv inv show ?thesis by simp
  next
    case (Some t)
    from update_keys_present [OF Some] inv Recv Some show ?thesis
      by (simp add: ids_inv_def)
  qed
next
  case (Go cid)
  assume inv: "ids_inv sys"
  show ?thesis
  proof (cases "map_of (threads sys) cid")
    case None
    with Go inv show ?thesis by simp
  next
    case (Some t)
    obtain t' st' where
      r: "thread_go loads (lock_free (AList.delete cid (threads sys))) (srv sys) cid t = (t', st')"
      by (cases "thread_go loads (lock_free (AList.delete cid (threads sys))) (srv sys) cid t")
    from thread_go_next_client_id [OF r] update_keys_present [OF Some] inv Go Some r
    show ?thesis by (simp add: ids_inv_def)
  qed
qed

lemma ids_inv_run: "ids_inv sys \<Longrightarrow> ids_inv (run loads sys ops)"
  unfolding run_def
  by (induction ops arbitrary: sys) (simp_all add: ids_inv_step)

lemma ids_inv_init: "ids_inv (init_system t)"
  by (simp add: ids_inv_def init_system_def)

text \<open>The ids handed out are increasing in the order of allocation, and below the counter.\<close>

lemma alloc_inv_step: "alloc_inv sys \<Longrightarrow> alloc_inv (step loads sys op)"
proof (cases op)
  case (Accept conn a)
  assume "alloc_inv sys"
  with Accept register_message_counter [of "srv sys" conn a] show ?thesis
    by (auto simp: alloc_inv_def split: prod.splits)
next
  case (Recv cid ev)
  assume "alloc_inv sys"
  with Recv show ?thesis by (auto simp: alloc_inv_def split: option.splits)
next
  case (Go cid)
  assume inv: "alloc_inv sys"
  show ?thesis
  proof (cases "map_of (threads sys) cid")
    case None
    with Go inv show ?thesis by simp
  next
    case (Some t)
    obtain t' st' where
      r: "thread_go loads (lock_free (AList.delete cid (threads sys))) (srv sys) cid t = (t', st')"
      by (cases "thread_go loads (lock_free (AList.delete cid (threads sys))) (srv sys) cid t")
    from thread_go_message_counter [OF r] inv Go Some r show ?thesis
      by (auto simp: alloc_inv_def sorted_wrt_append)
  qed
qed

lemma alloc_inv_run: "alloc_inv sys \<Longrightarrow> alloc_inv (run loads sys ops)"
  unfolding run_def
  by (induction ops arbitrary: sys) (simp_all add: alloc_inv_step)

lemma alloc_inv_init: "alloc_inv (init_system t)"
  by (simp add: alloc_inv_def init_system_def)

text \<open>
  Every chat packet written, and every one a thread has still to write, carries an id
  that was handed out, and no id handed out is carried by two of them.
\<close>

lemma wire_inv_step: "wire_inv sys \<Longrightarrow> wire_inv (step loads sys op)"
proof (cases op)
  case (Accept conn a)
  assume "wire_inv sys"
  with Accept register_wire [of "srv sys" conn a] show ?thesis
    by (auto simp: wire_inv_def pending_def todo_chats_def split: prod.splits)
next
  case (Recv cid ev)
  assume inv: "wire_inv sys"
  show ?thesis
  proof (cases "map_of (threads sys) cid")
    case None
    with Recv inv show ?thesis by simp
  next
    case (Some t)
    let ?t' = "thread_recv (srv sys) cid t ev"
    have "pending (AList.update cid ?t' (threads sys)) + todo_chats (t_todo t)
            = pending (threads sys) + todo_chats (t_todo ?t')"
      using Some by (rule pending_update)
    moreover have "todo_chats (t_todo ?t') \<subseteq># todo_chats (t_todo t)"
      by (rule thread_recv_todo)
    ultimately have "pending (AList.update cid ?t' (threads sys)) \<subseteq># pending (threads sys)"
      by (metis add.commute subset_mset.add_le_cancel_left subset_mset.add_right_mono
            subset_mset.order_refl subset_mset.add_left_mono)
    then have "mset (chat_ids (wire (srv sys))) + pending (AList.update cid ?t' (threads sys))
                 \<subseteq># mset (chat_ids (wire (srv sys))) + pending (threads sys)"
      by (rule subset_mset.add_left_mono)
    also have "\<dots> \<subseteq># mset (allocated sys)"
      using inv by (simp add: wire_inv_def)
    finally show ?thesis using Recv Some
      by (simp add: wire_inv_def)
  qed
next
  case (Go cid)
  assume inv: "wire_inv sys"
  show ?thesis
  proof (cases "map_of (threads sys) cid")
    case None
    with Go inv show ?thesis by simp
  next
    case (Some t)
    obtain t' st' where
      r: "thread_go loads (lock_free (AList.delete cid (threads sys))) (srv sys) cid t = (t', st')"
      by (cases "thread_go loads (lock_free (AList.delete cid (threads sys))) (srv sys) cid t")
    let ?new = "if message_counter st' = message_counter (srv sys) then {#}
                else {#message_counter (srv sys)#}"
    from thread_go_chats [OF r] obtain w where w: "wire st' = wire (srv sys) @ w"
      and sub: "mset (chat_ids w) + todo_chats (t_todo t')
                  \<subseteq># todo_chats (t_todo t) + ?new" by blast
    have upd: "pending (AList.update cid t' (threads sys)) + todo_chats (t_todo t)
            = pending (threads sys) + todo_chats (t_todo t')"
      using Some by (rule pending_update)
    have "mset (chat_ids (wire st')) + pending (AList.update cid t' (threads sys))
            + todo_chats (t_todo t)
          = mset (chat_ids (wire (srv sys))) + pending (threads sys)
            + (mset (chat_ids w) + todo_chats (t_todo t'))"
      using w upd by (simp add: ac_simps)
    also have "\<dots> \<subseteq># mset (chat_ids (wire (srv sys))) + pending (threads sys)
            + (todo_chats (t_todo t) + ?new)"
      using sub by (rule subset_mset.add_left_mono)
    also have "\<dots> \<subseteq># mset (allocated sys) + (todo_chats (t_todo t) + ?new)"
      using inv unfolding wire_inv_def by (rule subset_mset.add_right_mono)
    finally have "mset (chat_ids (wire st')) + pending (AList.update cid t' (threads sys))
            + todo_chats (t_todo t)
          \<subseteq># (mset (allocated sys) + ?new) + todo_chats (t_todo t)"
      by (simp add: ac_simps)
    then have "mset (chat_ids (wire st')) + pending (AList.update cid t' (threads sys))
          \<subseteq># mset (allocated sys) + ?new"
      by simp
    with Go Some r show ?thesis
      by (cases "message_counter st' = message_counter (srv sys)") (simp_all add: wire_inv_def)
  qed
qed

lemma wire_inv_run: "wire_inv sys \<Longrightarrow> wire_inv (run loads sys ops)"
  unfolding run_def
  by (induction ops arbitrary: sys) (simp_all add: wire_inv_step)

lemma wire_inv_init: "wire_inv (init_system t)"
  by (simp add: wire_inv_def init_system_def init_server_def pending_def)

lemma wire_ids_allocated:
  assumes "wire_inv sys" and "alloc_inv sys"
  shows "distinct (chat_ids (wire (srv sys)))"
    and "set (chat_ids (wire (srv sys))) \<subseteq> set (allocated sys)"
proof -
  from assms(1) have sub: "mset (chat_ids (wire (srv sys))) \<subseteq># mset (allocated sys)"
    unfolding wire_inv_def by (metis subset_mset.le_add_same_cancel1 subset_mset.order_trans
        subset_mset.add_left_mono add.right_neutral empty_le)
  from assms(2) have d: "distinct (allocated sys)"
    by (simp add: alloc_inv_def strict_sorted_iff)
  show "set (chat_ids (wire (srv sys))) \<subseteq> set (allocated sys)"
    using sub by (metis set_mset_mono set_mset_mset)
  show "distinct (chat_ids (wire (srv sys)))"
  proof -
    have "\<forall>a. count (mset (chat_ids (wire (srv sys)))) a \<le> count (mset (allocated sys)) a"
      using sub by (simp add: subseteq_mset_def)
    moreover have "\<forall>a. count (mset (allocated sys)) a \<le> 1"
      using d by (simp add: distinct_count_atmost_1)
    ultimately have "\<forall>a. count (mset (chat_ids (wire (srv sys)))) a \<le> 1"
      by (meson order_trans)
    then show ?thesis
      by (metis count_mset_0_iff distinct_count_atmost_1 le_antisym less_one not_le
            count_greater_zero_iff set_mset_mset)
  qed
qed

subsection \<open>The blocks of one call, run with no other thread in between\<close>

text \<open>
  Run one after the other, the blocks are the functions of server.py they were cut from.
\<close>

lemma flush_Send_json:
  "flush st (Send_json s p # bs) =
     (case send_json st s p of
        (Some e, st') \<Rightarrow> (Some e, st')
      | (None, st') \<Rightarrow> flush st' bs)"
  by (cases "send_json st s p"; cases "fst (send_json st s p)") auto

lemma flush_Lookup_send:
  "flush st (Lookup_send cid p # bs) = flush (snd (send_to_client_id st cid p)) bs"
  by (simp add: send_to_client_id_eq try_send_json split: option.splits)

lemma flush_Bcast_loop:
  "flush st (Bcast_loop notice now excl items # bs)
     = flush (snd (broadcast_loop st (InfoPkt notice now) excl items)) bs"
proof (induction items arbitrary: st)
  case Nil
  show ?case by simp
next
  case (Cons item others)
  obtain cid info where item: "item = (cid, info)" by (cases item)
  show ?case
  proof (cases "cid = excl")
    case True
    with item Cons.IH [of st] show ?thesis by simp
  next
    case False
    let ?st1 = "if writable st (socket info)
                then st\<lparr>wire := wire st @ [(socket info, InfoPkt notice now)]\<rparr> else st"
    from False item Cons.IH [of ?st1] show ?thesis
      by (simp add: try_send_json)
  qed
qed

lemma flush_Broadcast:
  "flush st (Broadcast notice excl # bs) = flush (snd (broadcast_info st notice excl)) bs"
  using flush_Bcast_loop [of st notice "time_now st" excl "clients st" bs]
  by (simp add: broadcast_info_def del: flush.simps(2))
     (simp add: flush.simps(2) [of st "Broadcast notice excl"])

lemma flush_Pop: "flush st (Pop cid # bs) = flush (snd (remove_client st cid)) bs"
proof (cases "map_of (clients st) cid")
  case None
  then show ?thesis by (simp add: remove_client_eq)
next
  case (Some info)
  let ?st1 = "st\<lparr>clients := AList.delete cid (clients st)\<rparr>"
  let ?st2 = "?st1\<lparr>closed_socks := List.insert (socket info) (closed_socks st)\<rparr>"
  have "flush st (Pop cid # bs) = flush ?st1 (Close (socket info) cid # bs)"
    using Some by simp
  also have "\<dots> = flush ?st2 (Broadcast (cid @ '' left the chat.'') cid # bs)"
    by simp
  also have "\<dots> = flush (snd (broadcast_info ?st2 (cid @ '' left the chat.'') cid)) bs"
    by (rule flush_Broadcast)
  also have "snd (broadcast_info ?st2 (cid @ '' left the chat.'') cid)
               = snd (remove_client st cid)"
    using Some by (simp add: remove_client_def)
  finally show ?thesis .
qed

lemma flush_Snapshot_list:
  "flush st (Snapshot_list cid # bs) =
     flush st (Lookup_send cid (ClientListPkt (client_list_snapshot st)) # bs)"
  by simp

lemma flush_Snapshot_welcome:
  "flush st (Snapshot_welcome conn cid # bs) =
     flush st (Send_json conn (Welcome cid (client_list_snapshot st)) # bs)"
  by simp

lemma flush_remove_client: "flush st [Pop cid] = remove_client st cid"
  using flush_Pop [of st cid "[]"] by (simp add: remove_client_eq del: flush.simps(2))

lemma flush_send_to_client_id: "flush st [Lookup_send cid p] = send_to_client_id st cid p"
  using flush_Lookup_send [of st cid p "[]"]
  by (simp add: send_to_client_id_eq del: flush.simps(2))

lemma flush_route_chat_message:
  "flush st [Route_lookup sender_id msg] = route_chat_message st sender_id msg"
proof (cases "clients_get st (dict_get msg ''to'' JNull)")
  case (Inl e)
  then show ?thesis by (simp add: route_chat_message_def Let_def)
next
  case (Inr target_info)
  show ?thesis
  proof (cases target_info)
    case None
    with Inr have "flush st [Route_lookup sender_id msg] =
        flush st [Lookup_send sender_id
                    (ErrorPkt [Lit ''Target client '', Val (dict_get msg ''to'' JNull),
                               Lit '' not found.''] (time_now st))]"
      by (subst flush.simps(2)) (simp add: Let_def del: flush.simps(2))
    with Inr None show ?thesis
      by (simp add: route_chat_message_def Let_def send_error_def flush_send_to_client_id
               del: flush.simps(2))
  next
    case (Some ti)
    let ?st1 = "st\<lparr>message_counter := message_counter st + 1\<rparr>"
    let ?chat = "ChatPkt (message_counter st) sender_id (dict_get msg ''to'' JNull)
         (dict_get msg ''text'' (JStr [])) (time_now st) (dict_get msg ''reply_to'' JNull)"
    show ?thesis
    proof (cases "writable ?st1 (socket ti)")
      case True
      from send_json_writable [OF True, of ?chat] Inr Some show ?thesis
        by (cases "map_of (clients st) sender_id")
           (simp_all add: route_chat_message_def Let_def flush_Send_json
              split: prod.splits option.splits)
    next
      case False
      from send_json_unwritable [OF False]
      obtain e where "send_json ?st1 (socket ti) ?chat = (Some e, ?st1)" by blast
      with Inr Some show ?thesis
        by (simp add: route_chat_message_def Let_def)
    qed
  qed
qed

lemma flush_handle_client_message:
  "handle_client_message st cid parsed =
     (case dispatch (time_now st) cid parsed of
        Inl e \<Rightarrow> (Some e, st)
      | Inr bs \<Rightarrow> flush st bs)"
proof (cases parsed)
  case None
  then show ?thesis by (simp add: handle_client_message_def dispatch_def)
next
  case (Some v)
  show ?thesis
  proof (cases v)
    case (JObj msg)
    have time: "time_now (snd (send_to_client_id st cid p)) = time_now st" for p
      by (simp add: send_to_client_id_eq split: option.splits)
    have fst_send: "(None, snd (send_to_client_id st cid p)) = send_to_client_id st cid p" for p
      by (simp add: send_to_client_id_eq)
    have exit: "(case send_to_client_id st cid p of
                   (Some e, st') \<Rightarrow> (Some e, st')
                 | (None, st') \<Rightarrow> remove_client st' cid)
                = remove_client (snd (send_to_client_id st cid p)) cid" for p
      by (simp add: send_to_client_id_eq)
    show ?thesis
      unfolding Some JObj handle_client_message_def dispatch_def
      by (simp add: Let_def flush_route_chat_message flush_Lookup_send flush_remove_client
            flush_send_to_client_id flush_Snapshot_list send_info_def send_error_def
            send_client_list_def exit fst_send del: flush.simps(2))
  qed (simp_all add: Some handle_client_message_def dispatch_def)
qed

lemma flush_handle_new_client:
  "handle_new_client st conn a =
     (case register st conn a of
        (cid, st1) \<Rightarrow>
          (case flush st1 [Snapshot_welcome conn cid,
                           Broadcast (cid @ '' joined the chat.'') cid] of
             (Some e, st2) \<Rightarrow> (cid, end_thread st2 cid (Some e))
           | (None, st2) \<Rightarrow> (cid, Running [], st2)))"
proof -
  obtain cid st1 where r: "register st conn a = (cid, st1)" by (cases "register st conn a")
  show ?thesis
  proof (cases "writable st1 conn")
    case True
    let ?st2 = "st1\<lparr>wire := wire st1 @ [(conn, Welcome cid (client_list_snapshot st1))]\<rparr>"
    have "flush st1 [Snapshot_welcome conn cid, Broadcast (cid @ '' joined the chat.'') cid]
            = flush ?st2 [Broadcast (cid @ '' joined the chat.'') cid]"
      using True
      by (simp add: flush_Snapshot_welcome flush_Send_json send_json_writable
            del: flush.simps(2))
    also have "\<dots> = flush (snd (broadcast_info ?st2 (cid @ '' joined the chat.'') cid)) []"
      by (rule flush_Broadcast)
    finally show ?thesis using True
      by (simp add: handle_new_client_def r send_json_writable broadcast_info_eq
            del: flush.simps(2))
  next
    case False
    from send_json_unwritable [OF False]
    obtain e where "send_json st1 conn (Welcome cid (client_list_snapshot st1)) = (Some e, st1)"
      by blast
    then show ?thesis
      by (simp add: handle_new_client_def r)
  qed
qed

section \<open>A run of the whole server\<close>

lemma fmt_03d_1: "fmt_03d 1 = ''001''"
  by (simp add: fmt_03d_def dec_nat.simps digit_char_def numeral_2_eq_2)
lemma fmt_03d_2: "fmt_03d 2 = ''002''"
  by (simp add: fmt_03d_def dec_nat.simps digit_char_def numeral_2_eq_2)

lemmas thread_defs = thread_go_def thread_recv_def leave_def uncaught_def dispatch_def
  lock_free_def holds_lock_def

text \<open>
  The interleaving \<open>ex_ops\<close>: \<^verbatim>\<open>C001\<close> is given message id 1 and \<^verbatim>\<open>C002\<close> message
  id 2, and the packet with id 2 is written to the socket of \<^verbatim>\<open>C002\<close> before the
  packet with id 1. Each receipt carries the id of its chat packet.
\<close>

lemma ex_run:
  "map fst (threads (run ex_loads (init_system (Finite 100)) ex_ops)) = [''C001'', ''C002'']
   \<and> allocated (run ex_loads (init_system (Finite 100)) ex_ops) = [1, 2]
   \<and> message_counter (srv (run ex_loads (init_system (Finite 100)) ex_ops)) = 3
   \<and> drop 3 (wire (srv (run ex_loads (init_system (Finite 100)) ex_ops)))
     = [(2, ChatPkt 2 ''C002'' (JStr ''C002'') (JStr ''hi'') (Finite 100) JNull),
        (2, ReceiptPkt 2 (JStr ''C002'') ''delivered'' (Finite 100)),
        (2, ChatPkt 1 ''C001'' (JStr ''C002'') (JStr ''hi'') (Finite 100) JNull),
        (1, ReceiptPkt 1 (JStr ''C002'') ''delivered'' (Finite 100))]
   \<and> chat_ids (wire (srv (run ex_loads (init_system (Finite 100)) ex_ops))) = [2, 1]"
  by (simp add: run_def ex_ops_def ex_chat_line_def init_system_def init_server_def
        register_def fmt_03d_1 fmt_03d_2 thread_defs server_defs framing_defs ex_loads_def
        str_address_def dec_nat.simps digit_char_def chat_ids_def AList.delete_eq)

section \<open>Reads split at character boundaries\<close>

text \<open>
  What does hold of the read loop: when every chunk is itself decodable (the stream is
  split between characters; any split of an ASCII stream is such), the chunks give
  the same lines to the handler as the whole stream does.
\<close>

lemma drain_no_delimiter: "DELIMITER \<notin> set buf \<Longrightarrow> drain h st buf = (None, st, buf)"
  by (subst drain.simps) simp

lemma drain_append:
  "drain h st (a @ b) =
     (case drain h st a of
        (Some e, st', rest) \<Rightarrow> (Some e, st', rest @ b)
      | (None, st', rest) \<Rightarrow> drain h st' (rest @ b))"
proof (induction h st a rule: drain.induct)
  case (1 h st buf)
  show ?case
  proof (cases "DELIMITER \<in> set buf")
    case False
    then show ?thesis by (simp add: drain_no_delimiter)
  next
    case True
    let ?P = "\<lambda>c. c \<noteq> DELIMITER"
    let ?line = "takeWhile ?P buf"
    let ?rest = "tl (dropWhile ?P buf)"
    have tw: "takeWhile ?P (buf @ b) = ?line"
      using True by (simp add: takeWhile_append1)
    have ne: "dropWhile ?P buf \<noteq> []" using True by auto
    have "dropWhile ?P (buf @ b) = dropWhile ?P buf @ b"
      using True by (simp add: dropWhile_append1)
    with ne have dw: "tl (dropWhile ?P (buf @ b)) = ?rest @ b" by simp
    have in2: "DELIMITER \<in> set (buf @ b)" using True by simp
    show ?thesis
    proof (cases "strip ?line \<noteq> []")
      case False
      have "drain h st (buf @ b) = drain h st (?rest @ b)"
        using in2 False by (subst drain.simps) (simp add: Let_def tw dw del: set_append)
      also have "\<dots> = (case drain h st ?rest of
          (Some e, st', rest) \<Rightarrow> (Some e, st', rest @ b)
        | (None, st', rest) \<Rightarrow> drain h st' (rest @ b))"
        using "1.IH"(2) [OF True refl refl] False by simp
      also have "drain h st ?rest = drain h st buf"
        using True False by (subst (2) drain.simps) (simp add: Let_def)
      finally show ?thesis .
    next
      case nonblank: True
      obtain r st' where hl: "h st ?line = (r, st')" by (cases "h st ?line")
      show ?thesis
      proof (cases r)
        case (Some e)
        have "drain h st (buf @ b) = (Some e, st', ?rest @ b)"
          using in2 nonblank hl Some
          by (subst drain.simps) (simp add: Let_def tw dw del: set_append)
        moreover have "drain h st buf = (Some e, st', ?rest)"
          using True nonblank hl Some by (subst drain.simps) (simp add: Let_def)
        ultimately show ?thesis by simp
      next
        case None
        have "drain h st (buf @ b) = drain h st' (?rest @ b)"
          using in2 nonblank hl None
          by (subst drain.simps) (simp add: Let_def tw dw del: set_append)
        also have "\<dots> = (case drain h st' ?rest of
            (Some e, st'', rest) \<Rightarrow> (Some e, st'', rest @ b)
          | (None, st'', rest) \<Rightarrow> drain h st'' (rest @ b))"
          using "1.IH"(1) [OF True refl refl nonblank _ _ ] hl None by simp
        also have "drain h st' ?rest = drain h st buf"
          using True nonblank hl None by (subst (2) drain.simps) (simp add: Let_def)
        finally show ?thesis .
      qed
    qed
  qed
qed

lemma utf8_decode_append:
  "utf8_decode a = Some sa \<Longrightarrow>
   utf8_decode (a @ b) = (case utf8_decode b of None \<Rightarrow> None | Some sb \<Rightarrow> Some (sa @ sb))"
proof (induction a arbitrary: sa rule: utf8_decode.induct)
  case 1
  then show ?case by (simp split: option.splits)
next
  case (2 b0 bs)
  then show ?case
    by (auto simp: Let_def split: if_splits list.splits option.splits)
qed

lemma same_outcome_refl [simp]: "same_outcome r r"
  by (simp add: same_outcome_def split: prod.splits)

lemma utf8_decode_concat:
  "\<forall>c \<in> set chunks. utf8_decode c \<noteq> None \<Longrightarrow> utf8_decode (concat chunks) \<noteq> None"
proof (induction chunks)
  case Nil
  show ?case by simp
next
  case (Cons c chunks)
  then obtain s where "utf8_decode c = Some s" by auto
  from utf8_decode_append [OF this, of "concat chunks"] Cons show ?case
    by (auto split: option.splits)
qed

lemma read_loop_single:
  "data \<noteq> [] \<Longrightarrow> utf8_decode data = Some s \<Longrightarrow>
   read_loop h st buf [data] =
     (case drain h st (buf @ s) of
        (Some e, st', buf') \<Rightarrow> (Some e, st', buf', False)
      | (None, st', buf') \<Rightarrow> (None, st', buf', True))"
  by (simp split: prod.splits option.splits)

lemma fragmented_reads_same_packets:
  "chunks \<noteq> [] \<Longrightarrow> \<forall>c \<in> set chunks. c \<noteq> [] \<and> utf8_decode c \<noteq> None \<Longrightarrow>
   same_outcome (read_loop h st buf chunks) (read_loop h st buf [concat chunks])"
proof (induction chunks arbitrary: st buf)
  case Nil
  then show ?case by simp
next
  case (Cons c chunks)
  show ?case
  proof (cases "chunks = []")
    case True
    then show ?thesis by simp
  next
    case False
    from Cons.prems obtain s where s: "utf8_decode c = Some s" and cne: "c \<noteq> []" by auto
    have rest_ok: "\<forall>c \<in> set chunks. c \<noteq> [] \<and> utf8_decode c \<noteq> None" using Cons.prems by simp
    then have "utf8_decode (concat chunks) \<noteq> None" by (simp add: utf8_decode_concat)
    then obtain s' where s': "utf8_decode (concat chunks) = Some s'" by auto
    have whole: "utf8_decode (c @ concat chunks) = Some (s @ s')"
      using utf8_decode_append [OF s, of "concat chunks"] s' by simp
    have rne: "concat chunks \<noteq> []" using False rest_ok by (cases chunks) auto
    obtain r st1 buf1 where d: "drain h st (buf @ s) = (r, st1, buf1)"
      by (cases "drain h st (buf @ s)")
    have da: "drain h st (buf @ s @ s') =
        (case r of Some e \<Rightarrow> (Some e, st1, buf1 @ s') | None \<Rightarrow> drain h st1 (buf1 @ s'))"
      using drain_append [of h st "buf @ s" s'] d by (simp split: option.splits)
    show ?thesis
    proof (cases r)
      case (Some e)
      with cne s d da whole show ?thesis
        by (simp add: same_outcome_def)
    next
      case None
      have "same_outcome (read_loop h st1 buf1 chunks) (read_loop h st1 buf1 [concat chunks])"
        using Cons.IH [OF False rest_ok] .
      moreover have "read_loop h st buf (c # chunks) = read_loop h st1 buf1 chunks"
        using cne s d None by simp
      moreover have "read_loop h st buf [concat (c # chunks)] = read_loop h st1 buf1 [concat chunks]"
      proof -
        have ne: "c @ concat chunks \<noteq> []" using cne by simp
        have "read_loop h st buf [c @ concat chunks] =
                (case drain h st1 (buf1 @ s') of
                   (Some e, st', buf') \<Rightarrow> (Some e, st', buf', False)
                 | (None, st', buf') \<Rightarrow> (None, st', buf', True))"
          using read_loop_single [OF ne whole, of h st buf] da None by simp
        also have "\<dots> = read_loop h st1 buf1 [concat chunks]"
          using read_loop_single [OF rne s', of h st1 buf1] by simp
        finally show ?thesis by simp
      qed
      ultimately show ?thesis by simp
    qed
  qed
qed

lemma utf8_decode_ascii: "\<forall>b \<in> set bs. unat b < 128 \<Longrightarrow> utf8_decode bs = Some (map unat bs)"
  by (induction bs) (simp_all add: Let_def)

lemma ascii_reads_same_packets:
  "chunks \<noteq> [] \<Longrightarrow> \<forall>c \<in> set chunks. c \<noteq> [] \<and> (\<forall>b \<in> set c. unat b < 128) \<Longrightarrow>
   same_outcome (read_loop h st buf chunks) (read_loop h st buf [concat chunks])"
proof -
  assume ne: "chunks \<noteq> []"
     and a: "\<forall>c \<in> set chunks. c \<noteq> [] \<and> (\<forall>b \<in> set c. unat b < 128)"
  have "\<forall>c \<in> set chunks. c \<noteq> [] \<and> utf8_decode c \<noteq> None"
  proof
    fix c assume c: "c \<in> set chunks"
    with a have "\<forall>b \<in> set c. unat b < 128" by blast
    then have "utf8_decode c = Some (map unat c)" by (rule utf8_decode_ascii)
    with a c show "c \<noteq> [] \<and> utf8_decode c \<noteq> None" by simp
  qed
  with ne show ?thesis by (rule fragmented_reads_same_packets)
qed

section \<open>Receipt reconciliation\<close>

lemma fill_first_none:
  "\<forall>m \<in> set ms. \<not> receipt_pending tgt m \<Longrightarrow> fill_first tgt mid ms = ms"
  by (induction ms) auto

lemma fill_first_split:
  "\<forall>m \<in> set pre. \<not> receipt_pending tgt m \<Longrightarrow> receipt_pending tgt x \<Longrightarrow>
   fill_first tgt mid (pre @ x # post) = pre @ x\<lparr>m_id := mid\<rparr> # post"
  by (induction pre) auto

text \<open>
  The stamps of the receipts this repository's server writes are readings of its clock.
  A stamp that cannot be shown as a time of day makes \<^verbatim>\<open>handle_receipt\<close> raise at
  line 279, before the history is looked at: the history is then as it was.
\<close>

lemma receipt_stamp_raises:
  "stamp_display fromts ts = Some e \<Longrightarrow> handle_receipt fromts c mid tgt ts = (Some e, c)"
  by (simp add: handle_receipt_def)

lemma receipt_stamp_nan:
  "handle_receipt fromts c mid tgt (JFloat NaN) = (Some ValueError, c)"
  by (simp add: handle_receipt_def stamp_display_def)

text \<open>
  C7. When a receipt for peer \<open>tgt\<close> with message id \<open>mid\<close> is reconciled (the
  handler has formatted the stamp of the receipt and reaches its loop), the first entry
  in append order that is outbound, for that peer, without id and not deleted gets its
  id set to \<open>mid\<close>; the entries before it (none of which satisfies the condition) and
  all entries after it are unchanged, as is everything else in the client; when no entry
  satisfies the condition the history is unchanged. Whenever some entry satisfies the
  condition, the history splits in this way.
\<close>

theorem receipt_fills_first_pending:
  "(stamp_display fromts ts = None \<and> history c = pre @ x # post
        \<and> (\<forall>m \<in> set pre. \<not> receipt_pending tgt m) \<and> receipt_pending tgt x
      \<longrightarrow> handle_receipt fromts c mid tgt ts
            = (None, c\<lparr>history := pre @ x\<lparr>m_id := mid\<rparr> # post\<rparr>))
   \<and> (stamp_display fromts ts = None \<and> (\<forall>m \<in> set (history c). \<not> receipt_pending tgt m)
      \<longrightarrow> handle_receipt fromts c mid tgt ts = (None, c))
   \<and> ((\<exists>m \<in> set (history c). receipt_pending tgt m)
      \<longrightarrow> (\<exists>pre' x' post'. history c = pre' @ x' # post'
             \<and> (\<forall>m \<in> set pre'. \<not> receipt_pending tgt m) \<and> receipt_pending tgt x'))"
proof (intro conjI impI)
  assume "stamp_display fromts ts = None \<and> history c = pre @ x # post
          \<and> (\<forall>m \<in> set pre. \<not> receipt_pending tgt m) \<and> receipt_pending tgt x"
  then show "handle_receipt fromts c mid tgt ts
            = (None, c\<lparr>history := pre @ x\<lparr>m_id := mid\<rparr> # post\<rparr>)"
    by (simp add: handle_receipt_def fill_first_split)
next
  assume "stamp_display fromts ts = None \<and> (\<forall>m \<in> set (history c). \<not> receipt_pending tgt m)"
  then show "handle_receipt fromts c mid tgt ts = (None, c)"
    by (simp add: handle_receipt_def fill_first_none)
next
  assume "\<exists>m \<in> set (history c). receipt_pending tgt m"
  then show "\<exists>pre' x' post'. history c = pre' @ x' # post'
             \<and> (\<forall>m \<in> set pre'. \<not> receipt_pending tgt m) \<and> receipt_pending tgt x'"
    using split_list_first_prop [of "history c" "receipt_pending tgt"] by blast
qed

theorem receipt_fills_first_pending_witness:
  "handle_receipt (\<lambda>r. None)
      (ex_client [(ex_out ''C002'' ''a'')\<lparr>m_deleted := True\<rparr>, ex_out ''C003'' ''b'',
                  ex_out ''C002'' ''c'', ex_out ''C002'' ''d''])
      (Some 7) (JStr ''C002'') (JFloat (Finite 100))
   = (None,
      ex_client [(ex_out ''C002'' ''a'')\<lparr>m_deleted := True\<rparr>, ex_out ''C003'' ''b'',
                 (ex_out ''C002'' ''c'')\<lparr>m_id := Some 7\<rparr>, ex_out ''C002'' ''d''])
   \<and> handle_receipt (\<lambda>r. None) (ex_client [ex_out ''C003'' ''b'']) (Some 7) (JStr ''C002'')
       (JFloat (Finite 100))
     = (None, ex_client [ex_out ''C003'' ''b''])"
  using receipt_fills_first_pending
         [of "\<lambda>r. None" "JFloat (Finite 100)"
             "ex_client [(ex_out ''C002'' ''a'')\<lparr>m_deleted := True\<rparr>, ex_out ''C003'' ''b'',
                  ex_out ''C002'' ''c'', ex_out ''C002'' ''d'']"
             "[(ex_out ''C002'' ''a'')\<lparr>m_deleted := True\<rparr>, ex_out ''C003'' ''b'']"
             "ex_out ''C002'' ''c''" "[ex_out ''C002'' ''d'']"
             "JStr ''C002''" "Some 7"]
        receipt_fills_first_pending
         [of "\<lambda>r. None" "JFloat (Finite 100)"
             "ex_client [ex_out ''C003'' ''b'']" "[]" "ex_out ''C003'' ''b''" "[]"
             "JStr ''C002''" "Some 7"]
  by (simp add: ex_client_def ex_out_def receipt_pending_def stamp_display_def)

section \<open>Reply resolution\<close>

lemma find_first_exists:
  "\<exists>m \<in> set h. P m \<Longrightarrow> \<exists>m. find P h = Some m \<and> P m \<and> m \<in> set h"
  by (induction h) auto

lemma str_int_9: "str_int 9 = ''9''"
  by (simp add: str_int_def dec_nat.simps digit_char_def)

text \<open>
  C9. Replying to message id \<open>msg_id\<close> resolves to the peer of the first entry with
  that id, whatever its \<open>deleted\<close> flag: with a working socket the chat packet goes to
  that peer with \<open>reply_to = msg_id\<close> and the outbound entry is recorded. An entry with
  that id that is soft-deleted is enough for the resolution to succeed. When no entry
  has that id, the caller is told so on the console, and neither the socket nor the
  history is touched.
\<close>

theorem reply_target_resolution:
  "(find (\<lambda>m. m_id m = Some msg_id) (history c) = Some e \<and> link_fault c = None
      \<longrightarrow> send_reply c msg_id txt =
            (None, c\<lparr>outbox := outbox c @ [ChatReq (m_peer e) txt (Some msg_id)],
                     history := history c @
                       [\<lparr>m_id = None, m_direction = ''out'', m_peer = m_peer e,
                         m_text = JStr txt, m_timestamp = Some (clock c),
                         m_reply_to = JInt msg_id, m_temp_until = None,
                         m_deleted = False\<rparr>]\<rparr>))
   \<and> ((\<exists>m \<in> set (history c). m_id m = Some msg_id \<and> m_deleted m)
      \<longrightarrow> (\<exists>m \<in> set (history c). find (\<lambda>m. m_id m = Some msg_id) (history c) = Some m
              \<and> m_id m = Some msg_id))
   \<and> ((\<forall>m \<in> set (history c). m_id m \<noteq> Some msg_id)
      \<longrightarrow> send_reply c msg_id txt =
            (None, c\<lparr>console := console c @
               [''[CLIENT] No message with ID '' @ str_int msg_id @ '' in history.'']\<rparr>))"
proof (intro conjI impI)
  assume "find (\<lambda>m. m_id m = Some msg_id) (history c) = Some e \<and> link_fault c = None"
  then show "send_reply c msg_id txt =
            (None, c\<lparr>outbox := outbox c @ [ChatReq (m_peer e) txt (Some msg_id)],
                     history := history c @
                       [\<lparr>m_id = None, m_direction = ''out'', m_peer = m_peer e,
                         m_text = JStr txt, m_timestamp = Some (clock c),
                         m_reply_to = JInt msg_id, m_temp_until = None,
                         m_deleted = False\<rparr>]\<rparr>)"
    by (simp add: send_reply_def send_chat_def client_send_json_def opt_int_json_def)
next
  assume "\<exists>m \<in> set (history c). m_id m = Some msg_id \<and> m_deleted m"
  then have "\<exists>m \<in> set (history c). m_id m = Some msg_id" by blast
  from find_first_exists [of "history c" "\<lambda>m. m_id m = Some msg_id", OF this]
  show "\<exists>m \<in> set (history c). find (\<lambda>m. m_id m = Some msg_id) (history c) = Some m
              \<and> m_id m = Some msg_id" by blast
next
  assume "\<forall>m \<in> set (history c). m_id m \<noteq> Some msg_id"
  then have "find (\<lambda>m. m_id m = Some msg_id) (history c) = None"
    by (simp add: find_None_iff)
  then show "send_reply c msg_id txt =
            (None, c\<lparr>console := console c @
               [''[CLIENT] No message with ID '' @ str_int msg_id @ '' in history.'']\<rparr>)"
    by (simp add: send_reply_def)
qed

theorem reply_target_resolution_witness:
  "fst (send_reply (ex_client [(ex_in 4 ''C002'' ''hi'')\<lparr>m_deleted := True\<rparr>]) 4 ''re'') = None
   \<and> outbox (snd (send_reply (ex_client [(ex_in 4 ''C002'' ''hi'')\<lparr>m_deleted := True\<rparr>]) 4 ''re''))
       = [ChatReq (JStr ''C002'') ''re'' (Some 4)]
   \<and> send_reply (ex_client [(ex_in 4 ''C002'' ''hi'')\<lparr>m_deleted := True\<rparr>]) 9 ''re''
       = (None, (ex_client [(ex_in 4 ''C002'' ''hi'')\<lparr>m_deleted := True\<rparr>])
                  \<lparr>console := [''[CLIENT] No message with ID 9 in history.'']\<rparr>)"
  using reply_target_resolution
          [of 4 "ex_client [(ex_in 4 ''C002'' ''hi'')\<lparr>m_deleted := True\<rparr>]"
              "(ex_in 4 ''C002'' ''hi'')\<lparr>m_deleted := True\<rparr>" "''re''"]
        reply_target_resolution
          [of 9 "ex_client [(ex_in 4 ''C002'' ''hi'')\<lparr>m_deleted := True\<rparr>]"
              "(ex_in 4 ''C002'' ''hi'')\<lparr>m_deleted := True\<rparr>" "''re''"]
  by (simp add: ex_client_def ex_in_def str_int_9)

section \<open>Temporary messages\<close>

lemma mark_first_none:
  "\<forall>m \<in> set ms. \<not> temp_matches t txt m \<Longrightarrow> mark_first t txt ms = ms"
  by (induction ms) auto

lemma mark_first_split:
  "\<forall>m \<in> set pre. \<not> temp_matches t txt m \<Longrightarrow> temp_matches t txt x \<Longrightarrow>
   mark_first t txt (pre @ x # post) = pre @ x\<lparr>m_deleted := True\<rparr> # post"
  by (induction pre) auto

lemma marked_no_match: "\<not> temp_matches t txt (x\<lparr>m_deleted := True\<rparr>)"
  by (simp add: temp_matches_def)

lemma float_lt_irrefl: "\<not> float_lt a a"
  by (cases a) auto

lemma wake_time_not_before: "\<not> float_lt (wake_time now t) t"
  by (simp add: wake_time_def float_lt_irrefl)

text \<open>
  C6, as stated, fails. Two temporary messages with the same text and deadline are sent;
  each starts its own cleanup thread, and nothing is marked before the deadline. When
  the thread of the second message wakes at the deadline, the entry marked is the first
  one, and the second is untouched: the entry is found by its text and deadline, not by
  its identity. Running the cleanup once more with the same arguments, when that first
  entry is already deleted, marks the second entry: it is not a no-op.
\<close>

theorem temp_cleanup_counterexample:
  "timers ex_two_temps = [(Finite 105, ''hi''), (Finite 105, ''hi'')]
   \<and> map m_deleted (history ex_two_temps) = [False, False]
   \<and> fire_timer ex_two_temps 1 = ex_two_temps
   \<and> map m_deleted (history (fire_timer (ex_two_temps\<lparr>clock := Finite 105\<rparr>) 1))
       = [True, False]
   \<and> map m_deleted
       (history (snd (temp_cleanup_worker 1000
                        (fire_timer (ex_two_temps\<lparr>clock := Finite 105\<rparr>) 1)
                        (Finite 105) ''hi'')))
       = [True, True]"
  by (simp add: ex_two_temps_def send_temp_message_def send_chat_def client_send_json_def
        ex_client_def fire_timer_def temp_cleanup_worker_def cleanup_mark_def
        cleanup_sleep_def wake_time_def temp_matches_def opt_int_json_def)

text \<open>
  A deadline the thread cannot sleep until: \<^verbatim>\<open>/temp C002 inf hello\<close>. The entry is
  recorded, \<^verbatim>\<open>time.sleep\<close> raises in the new thread, and the entry is never marked.
  The amended claim below is about the deadlines that can be slept until.
\<close>

lemma temp_cleanup_unsleepable:
  "cleanup_sleep sleep_max (Finite now) PosInf = Some OverflowError
   \<and> temp_cleanup_worker sleep_max (c\<lparr>clock := Finite now\<rparr>) PosInf txt
       = (Some OverflowError, c\<lparr>clock := Finite now\<rparr>)
   \<and> timers (snd (send_temp_message sleep_max (ex_client []) ''C002'' ''hello'' PosInf)) = []
   \<and> map m_temp_until
       (history (snd (send_temp_message sleep_max (ex_client []) ''C002'' ''hello'' PosInf)))
       = [Some PosInf]"
  by (simp add: cleanup_sleep_def temp_cleanup_worker_def send_temp_message_def send_chat_def
        client_send_json_def ex_client_def)

text \<open>
  C6, amended. Sending a temporary message, with a deadline its thread can sleep until,
  records the entry with its deadline and starts one cleanup thread with the arguments
  (deadline, text). The thread does nothing while the clock is before the deadline;
  at the deadline it runs, once. When it runs, the first entry in append order whose
  text equals that text, whose deadline equals that deadline and which is not deleted
  gets \<open>deleted = True\<close>, and nothing else in the history changes; when no entry
  matches, the history is unchanged. Running it a second time is a no-op on the history
  when no other entry matches. The body of the thread as a whole sleeps and then marks,
  with the clock at the deadline or past it.
\<close>

theorem temp_cleanup_marks_first_match:
  "(link_fault c = None \<and> cleanup_sleep sleep_max (clock c) t = None \<longrightarrow>
      send_temp_message sleep_max c target_id txt t =
        (None, c\<lparr>outbox := outbox c @ [ChatReq (JStr target_id) txt None],
                 history := history c @
                   [\<lparr>m_id = None, m_direction = ''out'', m_peer = JStr target_id,
                     m_text = JStr txt, m_timestamp = Some (clock c), m_reply_to = JNull,
                     m_temp_until = Some t, m_deleted = False\<rparr>],
                 timers := timers c @ [(t, txt)]\<rparr>))
   \<and> (i < length (timers c) \<and> float_lt (clock c) (fst (timers c ! i)) \<longrightarrow>
        fire_timer c i = c)
   \<and> (i < length (timers c) \<and> \<not> float_lt (clock c) (fst (timers c ! i)) \<longrightarrow>
        length (timers (fire_timer c i)) = length (timers c) - 1
        \<and> history (fire_timer c i) =
            history (cleanup_mark c (fst (timers c ! i)) (snd (timers c ! i))))
   \<and> (history c = pre @ x # post \<and> (\<forall>m \<in> set pre. \<not> temp_matches t txt m)
        \<and> temp_matches t txt x
      \<longrightarrow> history (cleanup_mark c t txt) = pre @ x\<lparr>m_deleted := True\<rparr> # post)
   \<and> ((\<forall>m \<in> set (history c). \<not> temp_matches t txt m)
      \<longrightarrow> history (cleanup_mark c t txt) = history c)
   \<and> (history c = pre @ x # post \<and> (\<forall>m \<in> set pre. \<not> temp_matches t txt m)
        \<and> temp_matches t txt x \<and> (\<forall>m \<in> set post. \<not> temp_matches t txt m)
      \<longrightarrow> history (cleanup_mark (cleanup_mark c t txt) t txt)
            = history (cleanup_mark c t txt))
   \<and> (cleanup_sleep sleep_max (clock c) t = None \<longrightarrow>
        temp_cleanup_worker sleep_max c t txt
          = (None, cleanup_mark (c\<lparr>clock := wake_time (clock c) t\<rparr>) t txt)
        \<and> \<not> float_lt (clock (snd (temp_cleanup_worker sleep_max c t txt))) t)"
proof (intro conjI impI)
  assume "link_fault c = None \<and> cleanup_sleep sleep_max (clock c) t = None"
  then show "send_temp_message sleep_max c target_id txt t =
        (None, c\<lparr>outbox := outbox c @ [ChatReq (JStr target_id) txt None],
                 history := history c @
                   [\<lparr>m_id = None, m_direction = ''out'', m_peer = JStr target_id,
                     m_text = JStr txt, m_timestamp = Some (clock c), m_reply_to = JNull,
                     m_temp_until = Some t, m_deleted = False\<rparr>],
                 timers := timers c @ [(t, txt)]\<rparr>)"
    by (simp add: send_temp_message_def send_chat_def client_send_json_def opt_int_json_def)
next
  assume "i < length (timers c) \<and> float_lt (clock c) (fst (timers c ! i))"
  then show "fire_timer c i = c"
    by (simp add: fire_timer_def)
next
  assume "i < length (timers c) \<and> \<not> float_lt (clock c) (fst (timers c ! i))"
  then show "length (timers (fire_timer c i)) = length (timers c) - 1"
    by (simp add: fire_timer_def cleanup_mark_def)
next
  assume "i < length (timers c) \<and> \<not> float_lt (clock c) (fst (timers c ! i))"
  then show "history (fire_timer c i) =
            history (cleanup_mark c (fst (timers c ! i)) (snd (timers c ! i)))"
    by (simp add: fire_timer_def cleanup_mark_def)
next
  assume "history c = pre @ x # post \<and> (\<forall>m \<in> set pre. \<not> temp_matches t txt m)
        \<and> temp_matches t txt x"
  then show "history (cleanup_mark c t txt) = pre @ x\<lparr>m_deleted := True\<rparr> # post"
    by (simp add: cleanup_mark_def mark_first_split)
next
  assume "\<forall>m \<in> set (history c). \<not> temp_matches t txt m"
  then show "history (cleanup_mark c t txt) = history c"
    by (simp add: cleanup_mark_def mark_first_none)
next
  assume a: "history c = pre @ x # post \<and> (\<forall>m \<in> set pre. \<not> temp_matches t txt m)
        \<and> temp_matches t txt x \<and> (\<forall>m \<in> set post. \<not> temp_matches t txt m)"
  then have h: "history (cleanup_mark c t txt) = pre @ x\<lparr>m_deleted := True\<rparr> # post"
    by (simp add: cleanup_mark_def mark_first_split)
  have "\<forall>m \<in> set (pre @ x\<lparr>m_deleted := True\<rparr> # post). \<not> temp_matches t txt m"
    using a marked_no_match by auto
  then have "mark_first t txt (pre @ x\<lparr>m_deleted := True\<rparr> # post)
             = pre @ x\<lparr>m_deleted := True\<rparr> # post"
    by (rule mark_first_none)
  with h show "history (cleanup_mark (cleanup_mark c t txt) t txt)
            = history (cleanup_mark c t txt)"
    by (simp add: cleanup_mark_def)
next
  assume "cleanup_sleep sleep_max (clock c) t = None"
  then show "temp_cleanup_worker sleep_max c t txt
          = (None, cleanup_mark (c\<lparr>clock := wake_time (clock c) t\<rparr>) t txt)"
    by (simp add: temp_cleanup_worker_def)
next
  assume "cleanup_sleep sleep_max (clock c) t = None"
  then show "\<not> float_lt (clock (snd (temp_cleanup_worker sleep_max c t txt))) t"
    by (simp add: temp_cleanup_worker_def cleanup_mark_def wake_time_not_before)
qed

theorem temp_cleanup_marks_first_match_witness:
  "snd (send_temp_message 1000
          (ex_client [ex_out ''C002'' ''hi'', ex_temp ''hi'' (Finite 105)])
          ''C002'' ''yo'' (Finite 105))
   = (ex_client [ex_out ''C002'' ''hi'', ex_temp ''hi'' (Finite 105),
                 ex_temp ''yo'' (Finite 105)])
       \<lparr>outbox := [ChatReq (JStr ''C002'') ''yo'' None], timers := [(Finite 105, ''yo'')]\<rparr>
   \<and> fire_timer
       ((ex_client [ex_out ''C002'' ''hi'', ex_temp ''hi'' (Finite 105),
                    ex_temp ''yo'' (Finite 105)])\<lparr>timers := [(Finite 105, ''hi'')]\<rparr>) 0
     = (ex_client [ex_out ''C002'' ''hi'', ex_temp ''hi'' (Finite 105),
                   ex_temp ''yo'' (Finite 105)])\<lparr>timers := [(Finite 105, ''hi'')]\<rparr>
   \<and> history (fire_timer
       ((ex_client [ex_out ''C002'' ''hi'', ex_temp ''hi'' (Finite 105),
                    ex_temp ''yo'' (Finite 105)])
          \<lparr>timers := [(Finite 105, ''hi'')], clock := Finite 105\<rparr>) 0)
     = [ex_out ''C002'' ''hi'', (ex_temp ''hi'' (Finite 105))\<lparr>m_deleted := True\<rparr>,
        ex_temp ''yo'' (Finite 105)]
   \<and> timers (fire_timer
       ((ex_client [ex_out ''C002'' ''hi'', ex_temp ''hi'' (Finite 105),
                    ex_temp ''yo'' (Finite 105)])
          \<lparr>timers := [(Finite 105, ''hi'')], clock := Finite 105\<rparr>) 0) = []
   \<and> history (cleanup_mark (cleanup_mark
       ((ex_client [ex_out ''C002'' ''hi'', ex_temp ''hi'' (Finite 105),
                    ex_temp ''yo'' (Finite 105)])
          \<lparr>timers := [(Finite 105, ''hi'')], clock := Finite 105\<rparr>) (Finite 105) ''hi'')
       (Finite 105) ''hi'')
     = [ex_out ''C002'' ''hi'', (ex_temp ''hi'' (Finite 105))\<lparr>m_deleted := True\<rparr>,
        ex_temp ''yo'' (Finite 105)]
   \<and> history (cleanup_mark (ex_client [ex_out ''C002'' ''hi'']) (Finite 105) ''hi'')
       = [ex_out ''C002'' ''hi'']
   \<and> clock (snd (temp_cleanup_worker 1000
        ((ex_client [ex_out ''C002'' ''hi'', ex_temp ''hi'' (Finite 105),
                    ex_temp ''yo'' (Finite 105)])\<lparr>timers := [(Finite 105, ''hi'')]\<rparr>)
        (Finite 105) ''hi'')) = Finite 105"
  using temp_cleanup_marks_first_match
     [of "ex_client [ex_out ''C002'' ''hi'', ex_temp ''hi'' (Finite 105)]" 1000 "Finite 105"
        "''C002''" "''yo''" 0 "[]" "ex_out ''C002'' ''hi''" "[]"]
    temp_cleanup_marks_first_match
     [of "(ex_client [ex_out ''C002'' ''hi'', ex_temp ''hi'' (Finite 105),
                      ex_temp ''yo'' (Finite 105)])\<lparr>timers := [(Finite 105, ''hi'')]\<rparr>"
        1000 "Finite 105" "''C002''" "''hi''" 0
        "[ex_out ''C002'' ''hi'']" "ex_temp ''hi'' (Finite 105)" "[ex_temp ''yo'' (Finite 105)]"]
    temp_cleanup_marks_first_match
     [of "(ex_client [ex_out ''C002'' ''hi'', ex_temp ''hi'' (Finite 105),
                      ex_temp ''yo'' (Finite 105)])
            \<lparr>timers := [(Finite 105, ''hi'')], clock := Finite 105\<rparr>"
        1000 "Finite 105" "''C002''" "''hi''" 0
        "[ex_out ''C002'' ''hi'']" "ex_temp ''hi'' (Finite 105)" "[ex_temp ''yo'' (Finite 105)]"]
    temp_cleanup_marks_first_match
     [of "ex_client [ex_out ''C002'' ''hi'']" 1000 "Finite 105" "''C002''" "''hi''" 0
        "[]" "ex_out ''C002'' ''hi''" "[]"]
  by (simp add: ex_client_def ex_out_def ex_temp_def temp_matches_def cleanup_sleep_def
        wake_time_def cleanup_mark_def)

lemma float_eq_NaN: "\<not> float_eq a NaN"
  by (cases a) auto

text \<open>
  A deadline that is \<^verbatim>\<open>nan\<close> (\<^verbatim>\<open>/temp C002 nan hello\<close>): the thread does not sleep, and
  its loop matches no entry at all.
\<close>

lemma temp_cleanup_nan_never_matches:
  "temp_cleanup_worker sleep_max c NaN txt
     = (None, c\<lparr>console := console c @
         [''[CLIENT] (Temp) A message has expired and was removed from local history.'']\<rparr>)"
proof -
  have "\<forall>m \<in> set (history c). \<not> temp_matches NaN txt m"
    by (auto simp: temp_matches_def float_eq_NaN split: option.splits)
  then have "mark_first NaN txt (history c) = history c" by (rule mark_first_none)
  moreover have "cleanup_sleep sleep_max (clock c) NaN = None"
    by (cases "clock c") (simp_all add: cleanup_sleep_def)
  moreover have "wake_time (clock c) NaN = clock c"
    by (cases "clock c") (simp_all add: wake_time_def)
  ultimately show ?thesis by (simp add: temp_cleanup_worker_def cleanup_mark_def)
qed

section \<open>Routing to an unknown target\<close>

text \<open>
  C4. A chat packet whose \<^verbatim>\<open>to\<close> finds no record in the registry ends with exactly
  one effect: the error packet naming the target, written to the sender (when the sender
  is registered and its socket takes the write). Nothing is forwarded, no receipt is
  written, and the message counter, like the rest of the state, is unchanged.
\<close>

theorem unknown_target_error_only:
  "clients_get st (dict_get msg ''to'' JNull) = Inr None \<Longrightarrow>
   route_chat_message st sender_id msg =
     (None,
      case map_of (clients st) sender_id of
        None \<Rightarrow> st
      | Some si \<Rightarrow>
          if writable st (socket si)
          then st\<lparr>wire := wire st @
                 [(socket si,
                   ErrorPkt [Lit ''Target client '', Val (dict_get msg ''to'' JNull),
                             Lit '' not found.''] (time_now st))]\<rparr>
          else st)"
proof -
  assume a: "clients_get st (dict_get msg ''to'' JNull) = Inr None"
  show ?thesis
  proof (cases "map_of (clients st) sender_id")
    case None
    with a show ?thesis
      by (simp add: route_chat_message_def send_error_def send_to_client_id_def Let_def)
  next
    case (Some si)
    show ?thesis
    proof (cases "writable st (socket si)")
      case True
      with a Some show ?thesis
        by (simp add: route_chat_message_def send_error_def send_to_client_id_def Let_def
              send_json_writable except_OSError_def)
    next
      case False
      from send_json_unwritable [OF False]
      obtain e where "send_json st (socket si)
          (ErrorPkt [Lit ''Target client '', Val (dict_get msg ''to'' JNull),
                             Lit '' not found.''] (time_now st)) = (Some e, st)" "is_OSError e"
        by blast
      with a Some False show ?thesis
        by (simp add: route_chat_message_def send_error_def send_to_client_id_def Let_def
              except_OSError_def)
    qed
  qed
qed

theorem unknown_target_error_only_witness:
  "route_chat_message ex_server ''C001'' [(''type'', JStr ''chat''), (''to'', JStr ''C999'')]
   = (None, ex_server\<lparr>wire :=
        [(1, ErrorPkt [Lit ''Target client '', Val (JStr ''C999''), Lit '' not found.'']
               (Finite 100))]\<rparr>)
   \<and> message_counter (snd (route_chat_message ex_server ''C001''
        [(''type'', JStr ''chat''), (''to'', JStr ''C999'')])) = 1"
  using unknown_target_error_only
    [of ex_server "[(''type'', JStr ''chat''), (''to'', JStr ''C999'')]" "''C001''"]
  by (simp add: ex_server_def dict_get_def ex_info_def writable_def)

section \<open>Forwarding failure\<close>

text \<open>
  When the target resolves and the write to its socket fails, the exception leaves
  \<^verbatim>\<open>route_chat_message\<close> at line 160: the message id stays consumed and nothing has
  been written.
\<close>

lemma forward_failure_raises:
  "clients_get st (dict_get msg ''to'' JNull) = Inr (Some ti) \<Longrightarrow>
   \<not> writable st (socket ti) \<Longrightarrow>
   \<exists>e. is_OSError e \<and>
       route_chat_message st sender_id msg =
         (Some e, st\<lparr>message_counter := message_counter st + 1\<rparr>)"
proof -
  assume a: "clients_get st (dict_get msg ''to'' JNull) = Inr (Some ti)"
     and b: "\<not> writable st (socket ti)"
  let ?st1 = "st\<lparr>message_counter := message_counter st + 1\<rparr>"
  from b have "\<not> writable ?st1 (socket ti)" by (simp add: writable_def)
  from send_json_unwritable [OF this]
  obtain e where "send_json ?st1 (socket ti)
      (ChatPkt (message_counter st) sender_id (dict_get msg ''to'' JNull)
         (dict_get msg ''text'' (JStr [])) (time_now st) (dict_get msg ''reply_to'' JNull))
      = (Some e, ?st1)" "is_OSError e" by blast
  with a show ?thesis
    by (simp add: route_chat_message_def Let_def)
qed

text \<open>
  C1 does not hold of the code. \<^verbatim>\<open>C001\<close>, \<^verbatim>\<open>C002\<close> and \<^verbatim>\<open>C003\<close> are registered and
  the peer of \<^verbatim>\<open>C002\<close> is gone, so the write to its socket raises \<^verbatim>\<open>BrokenPipeError\<close>.
  \<^verbatim>\<open>C001\<close> sends \<^verbatim>\<open>C002\<close> a chat packet. Routing writes nothing and raises; the
  exception is not one the thread of \<^verbatim>\<open>C001\<close> catches, so the thread ends with it,
  after \<^verbatim>\<open>finally\<close> has removed \<^verbatim>\<open>C001\<close> from the registry, closed its socket and
  told \<^verbatim>\<open>C003\<close> that it left. Nothing is ever written to socket 1: the sender gets no
  receipt, and no error packet either.
\<close>

theorem forward_failure_ends_sender_thread:
  "route_chat_message ex_server_broken ''C001''
       [(''type'', JStr ''chat''), (''to'', JStr ''C002''), (''text'', JStr ''hi'')]
   = (Some BrokenPipeError, ex_server_broken\<lparr>message_counter := 2\<rparr>)
   \<and> worker_recv ex_loads ex_server_broken ''C001'' 1 [] (Data ex_chat_line)
     = (Finished (Some BrokenPipeError),
        ex_server_broken
          \<lparr>message_counter := 2,
           clients := [(''C002'', ex_info 2 ''C002''), (''C003'', ex_info 3 ''C003'')],
           closed_socks := [1],
           wire := [(3, InfoPkt ''C001 left the chat.'' (Finite 100))]\<rparr>)
   \<and> filter (\<lambda>(s, p). s = 1)
        (wire (snd (worker_recv ex_loads ex_server_broken ''C001'' 1 [] (Data ex_chat_line))))
     = []"
  by (simp add: server_defs framing_defs ex_loads_def ex_server_broken_def ex_info_def
        ex_chat_line_def AList.delete_eq)

text \<open>
  The same in steps, with the other threads free to run in between: from the state in
  which the three threads wait for input, the thread of \<^verbatim>\<open>C001\<close> reads the line and
  runs to its end.
\<close>

lemma forward_failure_in_steps:
  "run ex_loads
     \<lparr>srv = ex_server_broken,
      threads = [(''C001'', \<lparr>t_conn = 1, t_buf = [], t_todo = [], t_phase = Serving\<rparr>),
                 (''C002'', \<lparr>t_conn = 2, t_buf = [], t_todo = [], t_phase = Serving\<rparr>),
                 (''C003'', \<lparr>t_conn = 3, t_buf = [], t_todo = [], t_phase = Serving\<rparr>)],
      allocated = []\<rparr>
     [Recv ''C001'' (Data ex_chat_line), Go ''C001'', Go ''C001'', Go ''C001'', Go ''C001'',
      Go ''C001'', Go ''C001'', Go ''C001'', Go ''C001'', Go ''C001'', Go ''C001'', Go ''C001'']
   = \<lparr>srv = ex_server_broken
          \<lparr>message_counter := 2,
           clients := [(''C002'', ex_info 2 ''C002''), (''C003'', ex_info 3 ''C003'')],
           closed_socks := [1],
           wire := [(3, InfoPkt ''C001 left the chat.'' (Finite 100))]\<rparr>,
      threads = [(''C001'', \<lparr>t_conn = 1, t_buf = [], t_todo = [],
                            t_phase = Ended (Some BrokenPipeError)\<rparr>),
                 (''C002'', \<lparr>t_conn = 2, t_buf = [], t_todo = [], t_phase = Serving\<rparr>),
                 (''C003'', \<lparr>t_conn = 3, t_buf = [], t_todo = [], t_phase = Serving\<rparr>)],
      allocated = [1]\<rparr>"
  by (simp add: run_def thread_defs server_defs framing_defs ex_loads_def ex_server_broken_def
        ex_info_def ex_chat_line_def AList.delete_eq)

section \<open>The welcome snapshot\<close>

lemma update_keeps_others:
  "(c, i) \<in> set al \<Longrightarrow> c \<noteq> k \<Longrightarrow> (c, i) \<in> set (AList.update k v al)"
  by (induction al) auto

text \<open>
  C10. For a connection whose socket takes the write, the first packet it is sent is the
  welcome packet, and the snapshot in it is taken after the registration: it lists the
  connection's own new identity with its address, and every client that was registered
  before (under another identity).
\<close>

theorem welcome_snapshot_contains_self:
  "writable st conn \<Longrightarrow>
   (\<exists>snap joined.
      handle_new_client st conn a =
        (CHR ''C'' # fmt_03d (next_client_id st), Running [],
         (snd (register st conn a))
           \<lparr>wire := wire st @ (conn, Welcome (CHR ''C'' # fmt_03d (next_client_id st)) snap)
                      # joined\<rparr>)
      \<and> snap = client_list_snapshot (snd (register st conn a))
      \<and> (CHR ''C'' # fmt_03d (next_client_id st), str_address a) \<in> set snap
      \<and> (\<forall>(c, i) \<in> set (clients st).
            c \<noteq> CHR ''C'' # fmt_03d (next_client_id st) \<longrightarrow> (c, str_address (address i)) \<in> set snap))"
proof -
  assume w: "writable st conn"
  let ?cid = "CHR ''C'' # fmt_03d (next_client_id st)"
  let ?info = "\<lparr>socket = conn, address = a, name = ?cid\<rparr>"
  let ?st1 = "st\<lparr>next_client_id := next_client_id st + 1,
                 clients := AList.update ?cid ?info (clients st)\<rparr>"
  have reg: "register st conn a = (?cid, ?st1)"
    by (simp add: register_def Let_def)
  have w1: "writable ?st1 conn"
    using w by (simp add: writable_def)
  let ?snap = "client_list_snapshot ?st1"
  let ?st2 = "?st1\<lparr>wire := wire ?st1 @ [(conn, Welcome ?cid ?snap)]\<rparr>"
  let ?joined = "notices ?st2 (InfoPkt (?cid @ '' joined the chat.'') (time_now ?st2)) ?cid (clients ?st2)"
  have "handle_new_client st conn a =
        (?cid, Running [], ?st1\<lparr>wire := wire st @ (conn, Welcome ?cid ?snap) # ?joined\<rparr>)"
    by (simp add: handle_new_client_def reg send_json_writable [OF w1] broadcast_info_def
          broadcast_loop_eq)
  moreover have "(?cid, ?info) \<in> set (AList.update ?cid ?info (clients st))"
    by (metis map_of_SomeD update_Some_unfold)
  then have "(?cid, str_address a) \<in> set ?snap"
    by (force simp: client_list_snapshot_def)
  moreover have "\<forall>(c, i) \<in> set (clients st). c \<noteq> ?cid \<longrightarrow> (c, str_address (address i)) \<in> set ?snap"
  proof (clarify)
    fix c i assume "(c, i) \<in> set (clients st)" "c \<noteq> ?cid"
    then have "(c, i) \<in> set (AList.update ?cid ?info (clients st))"
      by (rule update_keeps_others)
    then show "(c, str_address (address i)) \<in> set ?snap"
      by (force simp: client_list_snapshot_def)
  qed
  ultimately show ?thesis by (simp add: reg) blast
qed


lemma fmt_03d_3: "fmt_03d 3 = ''003''"
  by (simp add: fmt_03d_def dec_nat.simps digit_char_def numeral_2_eq_2)

theorem welcome_snapshot_contains_self_witness:
  "writable ex_server 3
   \<and> (\<exists>snap joined.
        handle_new_client ex_server 3 \<lparr>host = ''127.0.0.1'', port = 50003\<rparr> =
          (''C003'', Running [],
           (snd (register ex_server 3 \<lparr>host = ''127.0.0.1'', port = 50003\<rparr>))
             \<lparr>wire := (3, Welcome ''C003'' snap) # joined\<rparr>)
        \<and> (''C003'', str_address \<lparr>host = ''127.0.0.1'', port = 50003\<rparr>) \<in> set snap
        \<and> (''C001'', str_address (address (ex_info 1 ''C001''))) \<in> set snap
        \<and> (''C002'', str_address (address (ex_info 2 ''C002''))) \<in> set snap)"
proof -
  have w: "writable ex_server 3"
    by (simp add: writable_def ex_server_def)
  from welcome_snapshot_contains_self [OF w, of "\<lparr>host = ''127.0.0.1'', port = 50003\<rparr>"]
  show ?thesis
    using w by (simp add: ex_server_def fmt_03d_3) blast
qed

section \<open>Identities\<close>

text \<open>
  C3. Registrations made at different values of the identity counter return different
  identities; a registration moves the counter up by one and no step of the server
  moves it down. Hence, over every interleaving of the threads of a fresh server (and
  from any state in which the identities given out so far are distinct and lie below
  the counter), the identities returned to the connections are pairwise distinct.
\<close>

theorem identities_pairwise_distinct:
  "(next_client_id st \<noteq> next_client_id st'
      \<longrightarrow> fst (register st conn a) \<noteq> fst (register st' conn' a'))
   \<and> next_client_id (snd (register st conn a)) = next_client_id st + 1
   \<and> next_client_id (srv sys) \<le> next_client_id (srv (run loads sys ops))
   \<and> (ids_inv sys \<longrightarrow> distinct (map fst (threads (run loads sys ops))))
   \<and> distinct (map fst (threads (run loads (init_system t) ops)))"
proof (intro conjI impI)
  assume "next_client_id st \<noteq> next_client_id st'"
  then show "fst (register st conn a) \<noteq> fst (register st' conn' a')"
    using fmt_03d_inj by (auto simp: register_id)
next
  show "next_client_id (snd (register st conn a)) = next_client_id st + 1"
    by (rule register_counter)
next
  show "next_client_id (srv sys) \<le> next_client_id (srv (run loads sys ops))"
    by (rule run_next_client_id)
next
  assume "ids_inv sys"
  then have "ids_inv (run loads sys ops)" by (rule ids_inv_run)
  then show "distinct (map fst (threads (run loads sys ops)))" by (simp add: ids_inv_def)
next
  have "ids_inv (run loads (init_system t) ops)" using ids_inv_init by (rule ids_inv_run)
  then show "distinct (map fst (threads (run loads (init_system t) ops)))"
    by (simp add: ids_inv_def)
qed

theorem identities_pairwise_distinct_witness:
  "fst (register ex_server 3 \<lparr>host = ''127.0.0.1'', port = 50003\<rparr>)
     \<noteq> fst (register (snd (register ex_server 3 \<lparr>host = ''127.0.0.1'', port = 50003\<rparr>))
              4 \<lparr>host = ''127.0.0.1'', port = 50004\<rparr>)
   \<and> ids_inv (init_system (Finite 100))
   \<and> map fst (threads (run ex_loads (init_system (Finite 100)) ex_ops)) = [''C001'', ''C002'']
   \<and> distinct (map fst (threads (run ex_loads (init_system (Finite 100)) ex_ops)))"
  using identities_pairwise_distinct
          [where st = ex_server
             and st' = "snd (register ex_server 3 \<lparr>host = ''127.0.0.1'', port = 50003\<rparr>)"
             and conn = 3 and a = "\<lparr>host = ''127.0.0.1'', port = 50003\<rparr>"
             and conn' = 4 and a' = "\<lparr>host = ''127.0.0.1'', port = 50004\<rparr>"
             and sys = "init_system (Finite 100)" and loads = ex_loads and ops = ex_ops
             and t = "Finite 100"]
        ids_inv_init [of "Finite 100"] ex_run
  by (simp add: register_counter)

section \<open>Message ids\<close>

lemma alloc_exact_step:
  "1 \<le> message_counter (srv sys) \<Longrightarrow>
   allocated sys = [1 .. message_counter (srv sys) - 1] \<Longrightarrow>
   1 \<le> message_counter (srv (step loads sys op))
   \<and> allocated (step loads sys op) = [1 .. message_counter (srv (step loads sys op)) - 1]"
proof (cases op)
  case (Accept conn a)
  assume "1 \<le> message_counter (srv sys)"
    and "allocated sys = [1 .. message_counter (srv sys) - 1]"
  with Accept register_message_counter [of "srv sys" conn a] show ?thesis
    by (auto split: prod.splits)
next
  case (Recv cid ev)
  assume "1 \<le> message_counter (srv sys)"
    and "allocated sys = [1 .. message_counter (srv sys) - 1]"
  with Recv show ?thesis by (auto split: option.splits)
next
  case (Go cid)
  assume a: "1 \<le> message_counter (srv sys)"
    and b: "allocated sys = [1 .. message_counter (srv sys) - 1]"
  show ?thesis
  proof (cases "map_of (threads sys) cid")
    case None
    with Go a b show ?thesis by simp
  next
    case (Some t)
    obtain t' st' where
      r: "thread_go loads (lock_free (AList.delete cid (threads sys))) (srv sys) cid t = (t', st')"
      by (cases "thread_go loads (lock_free (AList.delete cid (threads sys))) (srv sys) cid t")
    from thread_go_message_counter [OF r] show ?thesis
    proof
      assume "message_counter st' = message_counter (srv sys)"
      with Go Some r a b show ?thesis by simp
    next
      assume c: "message_counter st' = message_counter (srv sys) + 1"
      have "[1 .. message_counter (srv sys)]
              = [1 .. message_counter (srv sys) - 1] @ [message_counter (srv sys)]"
        using a by (rule upto_rec2)
      with Go Some r a b c show ?thesis by simp
    qed
  qed
qed

lemma alloc_exact_run:
  "1 \<le> message_counter (srv sys) \<Longrightarrow>
   allocated sys = [1 .. message_counter (srv sys) - 1] \<Longrightarrow>
   allocated (run loads sys ops) = [1 .. message_counter (srv (run loads sys ops)) - 1]"
  unfolding run_def
proof (induction ops arbitrary: sys)
  case Nil
  then show ?case by simp
next
  case (Cons op ops)
  from alloc_exact_step [OF Cons.prems, of loads op] Cons.IH [of "step loads sys op"]
  show ?case by simp
qed

text \<open>
  C2. When a chat packet is routed (the target is registered and takes the write, the
  sender is registered and takes the write), the packet forwarded to the target and the
  receipt sent to the sender carry the same message id: the value of the server's
  counter, whatever the client's packet contains; the counter then moves up by one. The
  routing is the sequence of its blocks, between which other threads can run. Over every
  interleaving of the threads, the ids are handed out in strictly increasing order and
  stay below the counter, so none is handed out twice; on a fresh server they are
  1, 2, 3 and so on without a gap. Every chat packet on the wire carries an id that was
  handed out, and no two of them carry the same id. (The order in which the packets
  are written need not be the order of allocation: see \<open>ex_run\<close>.)
\<close>

theorem receipt_id_matches_and_allocation_increases:
  "(clients_get st (dict_get msg ''to'' JNull) = Inr (Some ti) \<and> writable st (socket ti)
      \<and> map_of (clients st) sender_id = Some si \<and> writable st (socket si)
    \<longrightarrow> route_chat_message st sender_id msg =
          (None, st\<lparr>message_counter := message_counter st + 1,
                    wire := wire st @
                      [(socket ti,
                        ChatPkt (message_counter st) sender_id (dict_get msg ''to'' JNull)
                          (dict_get msg ''text'' (JStr [])) (time_now st)
                          (dict_get msg ''reply_to'' JNull)),
                       (socket si,
                        ReceiptPkt (message_counter st) (dict_get msg ''to'' JNull)
                          ''delivered'' (time_now st))]\<rparr>))
   \<and> flush st [Route_lookup sender_id msg] = route_chat_message st sender_id msg
   \<and> (alloc_inv sys \<longrightarrow> alloc_inv (run loads sys ops))
   \<and> sorted_wrt (<) (allocated (run loads (init_system t) ops))
   \<and> distinct (allocated (run loads (init_system t) ops))
   \<and> allocated (run loads (init_system t) ops)
       = [1 .. message_counter (srv (run loads (init_system t) ops)) - 1]
   \<and> distinct (chat_ids (wire (srv (run loads (init_system t) ops))))
   \<and> set (chat_ids (wire (srv (run loads (init_system t) ops))))
       \<subseteq> set (allocated (run loads (init_system t) ops))"
proof (intro conjI impI)
  assume a: "clients_get st (dict_get msg ''to'' JNull) = Inr (Some ti) \<and> writable st (socket ti)
      \<and> map_of (clients st) sender_id = Some si \<and> writable st (socket si)"
  show "route_chat_message st sender_id msg =
          (None, st\<lparr>message_counter := message_counter st + 1,
                    wire := wire st @
                      [(socket ti,
                        ChatPkt (message_counter st) sender_id (dict_get msg ''to'' JNull)
                          (dict_get msg ''text'' (JStr [])) (time_now st)
                          (dict_get msg ''reply_to'' JNull)),
                       (socket si,
                        ReceiptPkt (message_counter st) (dict_get msg ''to'' JNull)
                          ''delivered'' (time_now st))]\<rparr>)"
    using a by (simp add: route_chat_message_def Let_def send_json_def writable_def)
next
  show "flush st [Route_lookup sender_id msg] = route_chat_message st sender_id msg"
    by (rule flush_route_chat_message)
next
  assume "alloc_inv sys"
  then show "alloc_inv (run loads sys ops)" by (rule alloc_inv_run)
next
  have a: "alloc_inv (run loads (init_system t) ops)"
    using alloc_inv_init by (rule alloc_inv_run)
  have w: "wire_inv (run loads (init_system t) ops)"
    using wire_inv_init by (rule wire_inv_run)
  from a show s: "sorted_wrt (<) (allocated (run loads (init_system t) ops))"
    by (simp add: alloc_inv_def)
  then show "distinct (allocated (run loads (init_system t) ops))"
    by (simp add: strict_sorted_iff)
  show "allocated (run loads (init_system t) ops)
       = [1 .. message_counter (srv (run loads (init_system t) ops)) - 1]"
    by (rule alloc_exact_run) (simp_all add: init_system_def init_server_def)
  from w a show "distinct (chat_ids (wire (srv (run loads (init_system t) ops))))"
    by (rule wire_ids_allocated)
  from w a show "set (chat_ids (wire (srv (run loads (init_system t) ops))))
       \<subseteq> set (allocated (run loads (init_system t) ops))"
    by (rule wire_ids_allocated)
qed

theorem receipt_id_matches_and_allocation_increases_witness:
  "route_chat_message ex_server ''C001''
      [(''type'', JStr ''chat''), (''to'', JStr ''C002''), (''text'', JStr ''hi''),
       (''message_id'', JInt 999)]
     = (None, ex_server\<lparr>message_counter := 2,
                wire := [(2, ChatPkt 1 ''C001'' (JStr ''C002'') (JStr ''hi'') (Finite 100) JNull),
                         (1, ReceiptPkt 1 (JStr ''C002'') ''delivered'' (Finite 100))]\<rparr>)
   \<and> alloc_inv (init_system (Finite 100))
   \<and> alloc_inv (run ex_loads (init_system (Finite 100)) ex_ops)
   \<and> allocated (run ex_loads (init_system (Finite 100)) ex_ops) = [1, 2]
   \<and> message_counter (srv (run ex_loads (init_system (Finite 100)) ex_ops)) = 3
   \<and> chat_ids (wire (srv (run ex_loads (init_system (Finite 100)) ex_ops))) = [2, 1]"
  using receipt_id_matches_and_allocation_increases
          [where st = ex_server and sender_id = "''C001''"
             and msg = "[(''type'', JStr ''chat''), (''to'', JStr ''C002''), (''text'', JStr ''hi''),
                         (''message_id'', JInt 999)]"
             and ti = "ex_info 2 ''C002''" and si = "ex_info 1 ''C001''"
             and sys = "init_system (Finite 100)" and loads = ex_loads and ops = ex_ops
             and t = "Finite 100"]
        alloc_inv_init [of "Finite 100"] ex_run
  by (simp add: ex_server_def ex_info_def dict_get_def writable_def del: flush.simps)

section \<open>Reads split inside a character\<close>

text \<open>
  C5 requires the same packets for every split of the byte stream. The code decodes
  each chunk on its own: read whole, the stream \<open>ex_stream\<close> gives its one line to
  the handler; split between the two bytes of its two-byte character, the first
  chunk is not UTF-8, \<^verbatim>\<open>decode\<close> raises \<^verbatim>\<open>UnicodeDecodeError\<close> and no line is
  decoded. In the server that exception ends the thread of the connection, and the
  client is removed.
\<close>

theorem split_inside_character_breaks_decoding:
  "(ascii_bytes ''{\"type\": \"chat\", \"to\": \"C002\", \"text\": \"caf'' @ [0xC3])
     @ ([0xA9] @ ascii_bytes ''\"}'' @ [10]) = ex_stream
   \<and> fst (snd (read_loop record_line [] [] [ex_stream]))
     = [ascii ''{\"type\": \"chat\", \"to\": \"C002\", \"text\": \"caf'' @ [233] @ ascii ''\"}'']
   \<and> read_loop record_line [] []
       [ascii_bytes ''{\"type\": \"chat\", \"to\": \"C002\", \"text\": \"caf'' @ [0xC3],
        [0xA9] @ ascii_bytes ''\"}'' @ [10]]
     = (Some UnicodeDecodeError, [], [], False)
   \<and> worker_recv ex_loads ex_server ''C001'' 1 []
       (Data (ascii_bytes ''{\"type\": \"chat\", \"to\": \"C002\", \"text\": \"caf'' @ [0xC3]))
     = (Finished (Some UnicodeDecodeError),
        ex_server\<lparr>clients := [(''C002'', ex_info 2 ''C002'')], closed_socks := [1],
                  wire := [(2, InfoPkt ''C001 left the chat.'' (Finite 100))]\<rparr>)"
  by (simp add: ex_stream_def framing_defs record_line_def server_defs ex_server_def ex_info_def
        AList.delete_eq)

section \<open>Exit\<close>

text \<open>
  What the \<^verbatim>\<open>exit\<close> branch does for a registered connection: the goodbye, the removal
  from the registry (so that a snapshot taken afterwards does not list it), the socket
  closed, one leave notice to each other client whose socket takes it. Removing again
  changes nothing, and the next read on the closed socket ends the thread.
\<close>

lemma map_of_delete_self: "map_of (AList.delete k al) k = None"
  by (simp add: delete_conv')

lemma exit_effects:
  "map_of (clients st) cid = Some info \<Longrightarrow> dict_get msg ''type'' JNull = JStr ''exit'' \<Longrightarrow>
   \<exists>written.
     handle_client_message st cid (Some (JObj msg)) =
       (None, st\<lparr>clients := AList.delete cid (clients st),
                 closed_socks := List.insert (socket info) (closed_socks st),
                 wire := wire st @ written\<rparr>)
     \<and> written =
         (if writable st (socket info)
          then [(socket info, InfoPkt ''Goodbye!'' (time_now st))] else [])
         @ notices (st\<lparr>closed_socks := List.insert (socket info) (closed_socks st)\<rparr>)
             (InfoPkt (cid @ '' left the chat.'') (time_now st)) cid
             (AList.delete cid (clients st))
     \<and> map_of (AList.delete cid (clients st)) cid = None
     \<and> cid \<notin> fst ` set (client_list_snapshot
                           (st\<lparr>clients := AList.delete cid (clients st)\<rparr>))"
proof -
  assume reg: "map_of (clients st) cid = Some info"
     and ex: "dict_get msg ''type'' JNull = JStr ''exit''"
  have gone: "map_of (AList.delete cid (clients st)) cid = None" by (rule map_of_delete_self)
  then have "cid \<notin> fst ` set (AList.delete cid (clients st))"
    by (simp add: map_of_eq_None_iff)
  then have snap: "cid \<notin> fst ` set (client_list_snapshot
                           (st\<lparr>clients := AList.delete cid (clients st)\<rparr>))"
    by (force simp: client_list_snapshot_def)
  have "handle_client_message st cid (Some (JObj msg)) =
       (None, st\<lparr>clients := AList.delete cid (clients st),
                 closed_socks := List.insert (socket info) (closed_socks st),
                 wire := wire st @
                   ((if writable st (socket info)
                     then [(socket info, InfoPkt ''Goodbye!'' (time_now st))] else [])
                    @ notices (st\<lparr>closed_socks := List.insert (socket info) (closed_socks st)\<rparr>)
                        (InfoPkt (cid @ '' left the chat.'') (time_now st)) cid
                        (AList.delete cid (clients st)))\<rparr>)"
    using reg ex
    by (simp add: handle_client_message_def Let_def send_info_def send_to_client_id_eq
          remove_client_eq notices_def writable_def)
  with gone snap show ?thesis by blast
qed

lemma remove_client_idempotent:
  "remove_client (snd (remove_client st cid)) cid = (None, snd (remove_client st cid))"
  by (simp add: remove_client_eq map_of_delete_self split: option.splits)

lemma read_after_close_ends_thread:
  "conn \<in> set (closed_socks st) \<Longrightarrow> map_of (clients st) cid = None \<Longrightarrow>
   worker_recv loads st cid conn buf ev = (Finished (Some OSError), st)"
  by (simp add: worker_recv_def end_thread_def remove_client_eq)

text \<open>
  C8 requires that no further packet of the connection is processed after \<^verbatim>\<open>exit\<close>.
  The inner loop of \<^verbatim>\<open>handle_new_client\<close> is not left after the \<^verbatim>\<open>exit\<close> line: a
  chat line that arrived in the same read is still routed. Here \<^verbatim>\<open>C001\<close> sends
  \<^verbatim>\<open>exit\<close> and a chat to \<^verbatim>\<open>C002\<close> in one read; after the goodbye and the leave notice,
  the chat is forwarded to \<^verbatim>\<open>C002\<close> under message id 1, and the thread is still reading.
\<close>

theorem packets_after_exit_are_processed:
  "worker_recv ex_loads ex_server ''C001'' 1 []
     (Data (ascii_bytes ''{\"type\": \"exit\"}'' @ [10]
            @ ascii_bytes ''{\"type\": \"chat\", \"to\": \"C002\", \"text\": \"hi\"}'' @ [10]))
   = (Running [],
      ex_server\<lparr>message_counter := 2,
                clients := [(''C002'', ex_info 2 ''C002'')], closed_socks := [1],
                wire := [(1, InfoPkt ''Goodbye!'' (Finite 100)),
                         (2, InfoPkt ''C001 left the chat.'' (Finite 100)),
                         (2, ChatPkt 1 ''C001'' (JStr ''C002'') (JStr ''hi'') (Finite 100) JNull)]\<rparr>)"
  by (simp add: server_defs framing_defs ex_loads_def ex_server_def ex_info_def AList.delete_eq)

end
